theory Spec2Isabelle
  imports
    Complex_Main
    "HOL-Library.Word"
    "HOL-Library.Signed_Division"
    "HOL-Library.Char_ord"
    "HOL-Library.List_Lexorder"
    "HOL-Library.AList"
    "HOL-Library.Multiset"
begin

section \<open>Strings as the launchpad's TypeScript uses them\<close>

text \<open>
  Strings are byte strings. \<open>toLowerCase\<close> maps the letters \<open>A\<close>..\<open>Z\<close> to
  \<open>a\<close>..\<open>z\<close> and leaves every other byte alone; the strings the launchpad lower-cases
  are hex addresses, hex hashes and provider error texts that it searches for ASCII
  patterns. String comparison (\<open><=\<close> and, on lower-case hex, \<open>localeCompare\<close>) is the
  lexicographic order on bytes.
\<close>

definition lowerChar :: "char \<Rightarrow> char" where
  "lowerChar c =
     (if CHR ''A'' \<le> c \<and> c \<le> CHR ''Z'' then char_of (of_char c + (32::nat)) else c)"

definition toLowerCase :: "string \<Rightarrow> string" where
  "toLowerCase s = map lowerChar s"

text \<open>\<open>haystack.includes(needle)\<close>: the needle occurs as a contiguous substring.\<close>

fun startsWith :: "string \<Rightarrow> string \<Rightarrow> bool" where
  "startsWith s [] = True"
| "startsWith [] (p # ps) = False"
| "startsWith (c # cs) (p # ps) = (c = p \<and> startsWith cs ps)"

fun str_includes :: "string \<Rightarrow> string \<Rightarrow> bool" where
  "str_includes [] needle = (needle = [])"
| "str_includes (c # cs) needle = (startsWith (c # cs) needle \<or> str_includes cs needle)"

text \<open>\<open>parts.join(sep)\<close>.\<close>

fun join :: "string \<Rightarrow> string list \<Rightarrow> string" where
  "join sep [] = []"
| "join sep [x] = x"
| "join sep (x # y # ys) = x @ sep @ join sep (y # ys)"

section \<open>Merkle allowlist engine (frontend/pages/admin.tsx)\<close>

text \<open>
  A hash is the 32-byte value that \<open>ethers.utils.keccak256\<close> returns as a canonical
  lower-case \<open>0x\<close> hex string of 66 characters. On such strings \<open>toLowerCase\<close> is the
  identity, the string order is the order of the 32-byte values, and none is the empty
  (falsy) string, so a hash is modelled as a 256-bit word with the unsigned order.
  \<open>keccak256\<close> itself belongs to the ethers library: the two ways the engine calls it
  are parameters, \<open>kc a b\<close> for \<open>keccak256(concat([a, b]))\<close> and \<open>leaf w\<close> for
  \<open>keccak256(solidityPack(["address"], [w]))\<close>.
\<close>

type_synonym bytes32 = "256 word"

type_synonym pair_hash = "bytes32 \<Rightarrow> bytes32 \<Rightarrow> bytes32"

type_synonym leaf_hash = "string \<Rightarrow> bytes32"

definition HashZero :: bytes32 where
  "HashZero = 0"

definition hashAllowlistLeaf :: "leaf_hash \<Rightarrow> string \<Rightarrow> bytes32" where
  "hashAllowlistLeaf leaf wallet = leaf wallet"

definition hashMerklePair :: "pair_hash \<Rightarrow> bytes32 \<Rightarrow> bytes32 \<Rightarrow> bytes32" where
  "hashMerklePair kc a b = (if a \<le> b then kc a b else kc b a)"

text \<open>The \<open>for\<close> loop of \<open>buildNextMerkleLayer\<close> walks the layer two entries at a time;
  a last entry without a partner is pushed unchanged.\<close>

fun buildNextMerkleLayer :: "pair_hash \<Rightarrow> bytes32 list \<Rightarrow> bytes32 list" where
  "buildNextMerkleLayer kc (a # b # rest) = hashMerklePair kc a b # buildNextMerkleLayer kc rest"
| "buildNextMerkleLayer kc [a] = [a]"
| "buildNextMerkleLayer kc [] = []"

lemma length_buildNextMerkleLayer:
  "length (buildNextMerkleLayer kc layer) = (length layer + 1) div 2"
  by (induction kc layer rule: buildNextMerkleLayer.induct) simp_all

text \<open>The \<open>while (layer.length > 1)\<close> loop that collects the proof of the leaf at
  \<open>index\<close>: the sibling, when the layer has one, is pushed before the layer collapses.\<close>

function proofLoop :: "pair_hash \<Rightarrow> nat \<Rightarrow> bytes32 list \<Rightarrow> bytes32 list \<Rightarrow> bytes32 list" where
  "proofLoop kc index layer proof =
     (if length layer > 1 then
        let pairIndex = (if index mod 2 = 0 then index + 1 else index - 1);
            proof' = (if pairIndex < length layer then proof @ [layer ! pairIndex] else proof)
        in proofLoop kc (index div 2) (buildNextMerkleLayer kc layer) proof'
      else proof)"
  by pat_completeness auto
termination
  by (relation "measure (\<lambda>(kc, index, layer, proof). length layer)")
     (auto simp: length_buildNextMerkleLayer)

text \<open>The \<open>while (rootLayer.length > 1)\<close> loop.\<close>

function rootLoop :: "pair_hash \<Rightarrow> bytes32 list \<Rightarrow> bytes32 list" where
  "rootLoop kc rootLayer =
     (if length rootLayer > 1 then rootLoop kc (buildNextMerkleLayer kc rootLayer) else rootLayer)"
  by pat_completeness auto
termination
  by (relation "measure (\<lambda>(kc, rootLayer). length rootLayer)")
     (auto simp: length_buildNextMerkleLayer)

text \<open>\<open>wallets.forEach((wallet, originalIndex) => ...)\<close>: the proofs object is keyed by
  the lower-cased wallet, and a later wallet with the same key overwrites the earlier
  entry.\<close>

fun proofsLoop ::
  "pair_hash \<Rightarrow> bytes32 list \<Rightarrow> string list \<Rightarrow> nat \<Rightarrow> (string \<rightharpoonup> bytes32 list) \<Rightarrow> (string \<rightharpoonup> bytes32 list)"
where
  "proofsLoop kc leaves [] originalIndex proofs = proofs"
| "proofsLoop kc leaves (wallet # rest) originalIndex proofs =
     proofsLoop kc leaves rest (Suc originalIndex)
       (proofs(toLowerCase wallet \<mapsto> proofLoop kc originalIndex leaves []))"

record merkle_data =
  root :: bytes32
  proofs :: "string \<rightharpoonup> bytes32 list"

definition buildAllowlistMerkleData :: "pair_hash \<Rightarrow> leaf_hash \<Rightarrow> string list \<Rightarrow> merkle_data" where
  "buildAllowlistMerkleData kc leaf wallets =
     (if wallets = [] then \<lparr>root = HashZero, proofs = Map.empty\<rparr>
      else
        let leaves = map (hashAllowlistLeaf leaf) wallets
        in \<lparr>root = (case rootLoop kc leaves of [] \<Rightarrow> HashZero | h # _ \<Rightarrow> h),
            proofs = proofsLoop kc leaves wallets 0 Map.empty\<rparr>)"

text \<open>
  Modelled from the spec: the verifier is the minting contract's, whose Solidity source
  is not part of the sources at hand. Section 4.2 gives it as: fold the proof over the
  leaf using the same sorted-pair hash, compare to the root.
\<close>

definition verify :: "pair_hash \<Rightarrow> bytes32 \<Rightarrow> bytes32 list \<Rightarrow> bytes32 \<Rightarrow> bool" where
  "verify kc leafHash proof expectedRoot = (foldl (hashMerklePair kc) leafHash proof = expectedRoot)"

text \<open>
  \<open>normalizeWalletList\<close>, which every caller applies before building a tree:
  \<open>getAddress\<close> (ethers; it throws on a string that is no address, here \<open>None\<close>) puts
  each wallet into its checksummed spelling, \<open>new Set\<close> keeps the first occurrence of
  each spelling in insertion order, and the stable \<open>sort\<close> orders by the lower-cased
  address.
\<close>

fun setInsertAll :: "'a list \<Rightarrow> 'a list \<Rightarrow> 'a list" where
  "setInsertAll seen [] = seen"
| "setInsertAll seen (x # xs) = setInsertAll (if x \<in> set seen then seen else seen @ [x]) xs"

definition normalizeWalletList :: "(string \<Rightarrow> string option) \<Rightarrow> string list \<Rightarrow> string list option" where
  "normalizeWalletList getAddress wallets =
     (case those (map getAddress wallets) of
        None \<Rightarrow> None
      | Some addresses \<Rightarrow> Some (sort_key toLowerCase (setInsertAll [] addresses)))"

text \<open>A small pair hash and leaf hash on which the engine can be run.\<close>

definition sample_pair_hash :: pair_hash where
  "sample_pair_hash a b = 31 * a + b + 7"

definition sample_leaf_hash :: leaf_hash where
  "sample_leaf_hash wallet = of_nat (length wallet)"

subsection \<open>Facts about the layers, the proof loop and the root loop\<close>

declare proofLoop.simps [simp del] rootLoop.simps [simp del]

lemma hashMerklePair_commute: "hashMerklePair kc a b = hashMerklePair kc b a"
  by (auto simp: hashMerklePair_def)

lemma nth_buildNextMerkleLayer:
  "i < length layer \<Longrightarrow>
   buildNextMerkleLayer kc layer ! (i div 2) =
     (if (if i mod 2 = 0 then i + 1 else i - 1) < length layer
      then hashMerklePair kc (layer ! i) (layer ! (if i mod 2 = 0 then i + 1 else i - 1))
      else layer ! i)"
proof (induction kc layer arbitrary: i rule: buildNextMerkleLayer.induct)
  case (1 kc a b rest)
  show ?case
  proof (cases "i < 2")
    case True
    then have "i = 0 \<or> i = 1" by arith
    then show ?thesis
      by (auto simp: hashMerklePair_commute [of kc b a])
  next
    case False
    then obtain j where j: "i = Suc (Suc j)" 
      by (metis One_nat_def Suc_1 less_Suc_eq not_less_eq old.nat.exhaust zero_less_Suc)
    with 1 have "j < length rest" by simp
    from "1.IH" [OF this] j show ?thesis
      by (auto simp: mod_Suc_Suc_eq)
  qed
next
  case (2 kc a)
  then show ?case by simp
next
  case (3 kc)
  then show ?case by simp
qed

lemma proofLoop_step:
  "1 < length layer \<Longrightarrow>
   proofLoop kc i layer p =
     proofLoop kc (i div 2) (buildNextMerkleLayer kc layer)
       (if (if i mod 2 = 0 then i + 1 else i - 1) < length layer
        then p @ [layer ! (if i mod 2 = 0 then i + 1 else i - 1)] else p)"
  by (subst proofLoop.simps) (simp add: Let_def)

lemma proofLoop_stop: "\<not> 1 < length layer \<Longrightarrow> proofLoop kc i layer p = p"
  by (subst proofLoop.simps) simp

lemma proofLoop_acc: "proofLoop kc i layer acc = acc @ proofLoop kc i layer []"
proof (induction "length layer" arbitrary: i layer acc rule: less_induct)
  case less
  show ?case
  proof (cases "1 < length layer")
    case True
    let ?next = "buildNextMerkleLayer kc layer"
    have shorter: "length ?next < length layer"
      using True by (simp add: length_buildNextMerkleLayer)
    have unfold: "proofLoop kc (i div 2) ?next q = q @ proofLoop kc (i div 2) ?next []" for q
      by (rule less.hyps [OF shorter])
    let ?sib = "if i mod 2 = 0 then i + 1 else i - 1"
    show ?thesis
      unfolding proofLoop_step [OF True, of kc i acc] proofLoop_step [OF True, of kc i "[]"]
      using unfold [of acc] unfold [of "acc @ [layer ! ?sib]"] unfold [of "[layer ! ?sib]"]
      by auto
  next
    case False
    then show ?thesis by (simp add: proofLoop_stop)
  qed
qed

lemma rootLoop_step:
  "1 < length layer \<Longrightarrow> rootLoop kc layer = rootLoop kc (buildNextMerkleLayer kc layer)"
  by (subst rootLoop.simps) simp

lemma rootLoop_stop: "\<not> 1 < length layer \<Longrightarrow> rootLoop kc layer = layer"
  by (subst rootLoop.simps) simp

lemma rootLoop_singleton: "layer \<noteq> [] \<Longrightarrow> \<exists>h. rootLoop kc layer = [h]"
proof (induction "length layer" arbitrary: layer rule: less_induct)
  case less
  show ?case
  proof (cases "1 < length layer")
    case True
    let ?next = "buildNextMerkleLayer kc layer"
    have "length ?next < length layer" "?next \<noteq> []"
      using True by (auto simp: length_buildNextMerkleLayer simp flip: length_0_conv)
    then show ?thesis
      using less.hyps [of ?next] by (simp add: rootLoop_step [OF True])
  next
    case False
    with less.prems obtain h where "layer = [h]"
      by (cases layer) auto
    then show ?thesis by (simp add: rootLoop_stop)
  qed
qed

lemma fold_proofLoop:
  "i < length layer \<Longrightarrow>
   rootLoop kc layer = [foldl (hashMerklePair kc) (layer ! i) (proofLoop kc i layer [])]"
proof (induction "length layer" arbitrary: i layer rule: less_induct)
  case less
  show ?case
  proof (cases "1 < length layer")
    case True
    let ?next = "buildNextMerkleLayer kc layer"
    let ?sib = "if i mod 2 = 0 then i + 1 else i - 1"
    have shorter: "length ?next < length layer"
      using True by (simp add: length_buildNextMerkleLayer)
    have inside: "i div 2 < length ?next"
      using less.prems by (simp add: length_buildNextMerkleLayer)
    have IH: "rootLoop kc ?next =
        [foldl (hashMerklePair kc) (?next ! (i div 2)) (proofLoop kc (i div 2) ?next [])]"
      by (rule less.hyps [OF shorter inside])
    show ?thesis
    proof (cases "?sib < length layer")
      case sib: True
      have "proofLoop kc i layer [] = layer ! ?sib # proofLoop kc (i div 2) ?next []"
        using sib proofLoop_acc [of kc "i div 2" ?next "[layer ! ?sib]"]
        by (simp add: proofLoop_step [OF True])
      moreover have "?next ! (i div 2) = hashMerklePair kc (layer ! i) (layer ! ?sib)"
        using sib nth_buildNextMerkleLayer [OF less.prems, of kc] by simp
      ultimately show ?thesis
        using IH by (simp add: rootLoop_step [OF True])
    next
      case nosib: False
      have "proofLoop kc i layer [] = proofLoop kc (i div 2) ?next []"
        using nosib by (simp add: proofLoop_step [OF True])
      moreover have "?next ! (i div 2) = layer ! i"
        using nosib nth_buildNextMerkleLayer [OF less.prems, of kc] by simp
      ultimately show ?thesis
        using IH by (simp add: rootLoop_step [OF True])
    qed
  next
    case False
    with less.prems obtain h where "layer = [h]" "i = 0"
      by (cases layer) auto
    then show ?thesis by (simp add: rootLoop_stop proofLoop_stop)
  qed
qed

lemma proofsLoop_untouched:
  "k \<notin> toLowerCase ` set ws \<Longrightarrow> proofsLoop kc leaves ws i m k = m k"
  by (induction ws arbitrary: i m) auto

lemma proofsLoop_lookup:
  "k \<in> toLowerCase ` set ws \<Longrightarrow>
   \<exists>j < length ws. toLowerCase (ws ! j) = k \<and>
      proofsLoop kc leaves ws i m k = Some (proofLoop kc (i + j) leaves [])"
proof (induction ws arbitrary: i m)
  case Nil
  then show ?case by simp
next
  case (Cons w ws)
  show ?case
  proof (cases "k \<in> toLowerCase ` set ws")
    case True
    from Cons.IH [OF True, of "Suc i" "m(toLowerCase w \<mapsto> proofLoop kc i leaves [])"]
    obtain j where "j < length ws" "toLowerCase (ws ! j) = k"
      "proofsLoop kc leaves ws (Suc i) (m(toLowerCase w \<mapsto> proofLoop kc i leaves [])) k
        = Some (proofLoop kc (Suc i + j) leaves [])"
      by blast
    then show ?thesis
      by (intro exI [of _ "Suc j"]) simp
  next
    case False
    with Cons.prems have "k = toLowerCase w" by auto
    with False show ?thesis
      by (intro exI [of _ 0]) (simp add: proofsLoop_untouched)
  qed
qed

lemma proof_verifies_for_shared_leaf:
  assumes member: "w \<in> set W"
    and same_leaf: "\<And>v. v \<in> set W \<Longrightarrow> toLowerCase v = toLowerCase w \<Longrightarrow> leaf v = leaf w"
  shows "\<exists>p. proofs (buildAllowlistMerkleData kc leaf W) (toLowerCase w) = Some p \<and>
             verify kc (hashAllowlistLeaf leaf w) p (root (buildAllowlistMerkleData kc leaf W))"
proof -
  let ?leaves = "map (hashAllowlistLeaf leaf) W"
  from member have nonempty: "W \<noteq> []" by auto
  from member have "toLowerCase w \<in> toLowerCase ` set W" by simp
  from proofsLoop_lookup [OF this, of kc ?leaves 0 Map.empty]
  obtain j where j: "j < length W" "toLowerCase (W ! j) = toLowerCase w"
    and found: "proofsLoop kc ?leaves W 0 Map.empty (toLowerCase w) = Some (proofLoop kc j ?leaves [])"
    by auto
  have "leaf (W ! j) = leaf w"
    using j by (intro same_leaf) simp_all
  then have leaf_j: "?leaves ! j = hashAllowlistLeaf leaf w"
    using j by (simp add: hashAllowlistLeaf_def)
  have "rootLoop kc ?leaves = [foldl (hashMerklePair kc) (?leaves ! j) (proofLoop kc j ?leaves [])]"
    using j by (intro fold_proofLoop) simp
  with leaf_j found nonempty show ?thesis
    by (simp add: buildAllowlistMerkleData_def verify_def Let_def)
qed

text \<open>With three wallets the first two leaves are paired and the third is promoted.\<close>

lemma root_of_three_wallets:
  "root (buildAllowlistMerkleData kc leaf [a, b, c]) =
     hashMerklePair kc (hashMerklePair kc (leaf a) (leaf b)) (leaf c)"
  by (simp add: buildAllowlistMerkleData_def hashAllowlistLeaf_def rootLoop.simps Let_def)

lemma those_map_Some:
  "those (map f xs) = Some ys \<longleftrightarrow> (\<forall>x \<in> set xs. f x \<noteq> None) \<and> ys = map (\<lambda>x. the (f x)) xs"
  by (induction xs arbitrary: ys) (auto split: option.splits)

lemma set_setInsertAll: "set (setInsertAll seen xs) = set seen \<union> set xs"
  by (induction xs arbitrary: seen) auto

lemma distinct_setInsertAll: "distinct seen \<Longrightarrow> distinct (setInsertAll seen xs)"
  by (induction xs arbitrary: seen) auto

lemma normalizeWalletList_permutation:
  assumes perm: "mset W = mset W'"
    and canonical: "\<And>a b x y. a \<in> set W \<Longrightarrow> b \<in> set W \<Longrightarrow> getAddress a = Some x \<Longrightarrow>
        getAddress b = Some y \<Longrightarrow> toLowerCase x = toLowerCase y \<Longrightarrow> x = y"
  shows "normalizeWalletList getAddress W = normalizeWalletList getAddress W'"
proof -
  from perm have same_set: "set W = set W'"
    by (rule mset_eq_setD)
  show ?thesis
  proof (cases "\<forall>a \<in> set W. getAddress a \<noteq> None")
    case False
    then have "those (map getAddress W) = None" "those (map getAddress W') = None"
      using same_set by (auto simp: those_map_Some simp flip: not_Some_eq)
    then show ?thesis by (simp add: normalizeWalletList_def)
  next
    case True
    let ?g = "\<lambda>a. the (getAddress a)"
    let ?A = "setInsertAll [] (map ?g W)" and ?B = "setInsertAll [] (map ?g W')"
    have thoseW: "those (map getAddress W) = Some (map ?g W)"
      and thoseW': "those (map getAddress W') = Some (map ?g W')"
      using True same_set by (simp_all add: those_map_Some)
    have sets: "set ?A = ?g ` set W" "set ?B = ?g ` set W"
      using same_set by (simp_all add: set_setInsertAll)
    have inj: "inj_on toLowerCase (?g ` set W)"
    proof (rule inj_onI)
      fix x y
      assume "x \<in> ?g ` set W" "y \<in> ?g ` set W" "toLowerCase x = toLowerCase y"
      then obtain a b where "a \<in> set W" "b \<in> set W" "getAddress a = Some x" "getAddress b = Some y"
        using True by force
      with \<open>toLowerCase x = toLowerCase y\<close> show "x = y"
        by (blast intro: canonical)
    qed
    have "sort_key toLowerCase ?A = sort_key toLowerCase ?B"
    proof (rule map_sorted_distinct_set_unique [of toLowerCase])
      show "inj_on toLowerCase (set (sort_key toLowerCase ?A) \<union> set (sort_key toLowerCase ?B))"
        using inj sets by simp
      show "distinct (map toLowerCase (sort_key toLowerCase ?A))"
        using inj sets by (simp add: distinct_map distinct_setInsertAll)
      show "distinct (map toLowerCase (sort_key toLowerCase ?B))"
        using inj sets by (simp add: distinct_map distinct_setInsertAll)
      show "set (sort_key toLowerCase ?A) = set (sort_key toLowerCase ?B)"
        using sets by simp
    qed simp_all
    then show ?thesis
      by (simp add: normalizeWalletList_def thoseW thoseW')
  qed
qed

subsection \<open>Claims about the Merkle engine\<close>

text \<open>
  C1 (Merkle round-trip). For every non-empty list \<open>W\<close> of distinct wallet addresses
  (distinct as addresses, that is after lower-casing, which is how the proofs object is
  keyed) and every wallet \<open>w\<close> of \<open>W\<close>, the proofs map of
  \<open>buildAllowlistMerkleData W\<close> has an entry under \<open>w.toLowerCase()\<close>, and folding that
  proof over the leaf of \<open>w\<close> with the sorted-pair hash gives the root: verification
  succeeds. The lemma \<open>proof_verifies_for_shared_leaf\<close> above shows the same for any list in
  which wallets sharing a key share their leaf.
\<close>

theorem merkle_round_trip:
  assumes "W \<noteq> []" and "distinct (map toLowerCase W)" and "w \<in> set W"
  shows "\<exists>p. proofs (buildAllowlistMerkleData kc leaf W) (toLowerCase w) = Some p \<and>
             verify kc (hashAllowlistLeaf leaf w) p (root (buildAllowlistMerkleData kc leaf W))"
proof (rule proof_verifies_for_shared_leaf)
  show "w \<in> set W" by fact
next
  fix v
  assume "v \<in> set W" "toLowerCase v = toLowerCase w"
  moreover have "inj_on toLowerCase (set W)"
    using assms(2) by (simp add: distinct_map)
  ultimately have "v = w"
    using assms(3) by (auto dest: inj_onD)
  then show "leaf v = leaf w" by simp
qed

theorem merkle_round_trip_witness:
  "[''0xA'', ''0xbb'', ''0xCCC''] \<noteq> [] \<and>
   distinct (map toLowerCase [''0xA'', ''0xbb'', ''0xCCC'']) \<and>
   ''0xbb'' \<in> set [''0xA'', ''0xbb'', ''0xCCC''] \<and>
   (\<exists>p. proofs (buildAllowlistMerkleData sample_pair_hash sample_leaf_hash
              [''0xA'', ''0xbb'', ''0xCCC'']) (toLowerCase ''0xbb'') = Some p \<and>
        verify sample_pair_hash (hashAllowlistLeaf sample_leaf_hash ''0xbb'') p
          (root (buildAllowlistMerkleData sample_pair_hash sample_leaf_hash
              [''0xA'', ''0xbb'', ''0xCCC''])))"
proof -
  have h1: "[''0xA'', ''0xbb'', ''0xCCC''] \<noteq> []" by simp
  have h2: "distinct (map toLowerCase [''0xA'', ''0xbb'', ''0xCCC''])" by code_simp
  have h3: "''0xbb'' \<in> set [''0xA'', ''0xbb'', ''0xCCC'']" by simp
  show ?thesis
    using h1 h2 h3 merkle_round_trip [OF h1 h2 h3] by blast
qed

text \<open>
  C9 (Merkle edge cases). The empty wallet list gives the zero hash as root and an empty
  proofs map; a singleton list \<open>[w]\<close> gives the leaf hash of \<open>w\<close> as root and the empty
  proof under \<open>w.toLowerCase()\<close>, the only entry of the proofs map.
\<close>

theorem merkle_edge_cases:
  "buildAllowlistMerkleData kc leaf [] = \<lparr>root = HashZero, proofs = Map.empty\<rparr> \<and>
   root (buildAllowlistMerkleData kc leaf [w]) = hashAllowlistLeaf leaf w \<and>
   proofs (buildAllowlistMerkleData kc leaf [w]) = [toLowerCase w \<mapsto> []]"
  by (simp add: buildAllowlistMerkleData_def rootLoop_stop proofLoop_stop)

text \<open>
  C2 (Merkle order independence), as stated: the root of \<open>buildAllowlistMerkleData\<close> is
  the same for every permutation of the wallet list. The sorted-pair hash makes a node
  independent of the order of its two children only; which leaves are paired still
  follows the positions in the list. With three leaves the third is promoted unpaired
  (\<open>root_of_three_wallets\<close>), so exchanging the second and third wallet changes the
  root unless two different inputs of the hash collide.
\<close>

theorem merkle_root_order_counterexample:
  "mset [''0xA'', ''0xbb'', ''0xCCC''] = mset [''0xA'', ''0xCCC'', ''0xbb''] \<and>
   root (buildAllowlistMerkleData sample_pair_hash sample_leaf_hash [''0xA'', ''0xbb'', ''0xCCC''])
     = 266 \<and>
   root (buildAllowlistMerkleData sample_pair_hash sample_leaf_hash [''0xA'', ''0xCCC'', ''0xbb''])
     = 236"
proof (intro conjI)
  show "mset [''0xA'', ''0xbb'', ''0xCCC''] = mset [''0xA'', ''0xCCC'', ''0xbb'']"
    by (simp add: add.commute)
next
  show "root (buildAllowlistMerkleData sample_pair_hash sample_leaf_hash
          [''0xA'', ''0xbb'', ''0xCCC'']) = 266"
    by (simp add: root_of_three_wallets hashMerklePair_def sample_pair_hash_def
        sample_leaf_hash_def)
next
  show "root (buildAllowlistMerkleData sample_pair_hash sample_leaf_hash
          [''0xA'', ''0xCCC'', ''0xbb'']) = 236"
    by (simp add: root_of_three_wallets hashMerklePair_def sample_pair_hash_def
        sample_leaf_hash_def)
qed

text \<open>
  C2, amended: the root is independent of the insertion order once the list has gone
  through \<open>normalizeWalletList\<close>, as it does at every call site. For a wallet list \<open>W\<close>
  whose entries \<open>getAddress\<close> accepts and any permutation \<open>W'\<close> of it, the normalised
  lists are equal, hence so are the roots built from them. The checksummed spelling is
  taken to be canonical: two results of \<open>getAddress\<close> that agree after lower-casing are
  the same string.
\<close>

theorem merkle_root_order_independent_normalized:
  assumes "mset W = mset W'"
    and "\<forall>a \<in> set W. \<forall>b \<in> set W. \<forall>x y. getAddress a = Some x \<longrightarrow> getAddress b = Some y \<longrightarrow>
           toLowerCase x = toLowerCase y \<longrightarrow> x = y"
    and "normalizeWalletList getAddress W = Some N"
  shows "\<exists>N'. normalizeWalletList getAddress W' = Some N' \<and>
           root (buildAllowlistMerkleData kc leaf N) = root (buildAllowlistMerkleData kc leaf N')"
proof -
  have "normalizeWalletList getAddress W = normalizeWalletList getAddress W'"
    using assms(1)
  proof (rule normalizeWalletList_permutation)
    fix a b x y
    assume "a \<in> set W" "b \<in> set W" "getAddress a = Some x" "getAddress b = Some y"
      "toLowerCase x = toLowerCase y"
    with assms(2) show "x = y" by blast
  qed
  with assms(3) show ?thesis by simp
qed

theorem merkle_root_order_independent_normalized_witness:
  "mset [''0xbb'', ''0xA'', ''0xCCC''] = mset [''0xCCC'', ''0xbb'', ''0xA''] \<and>
   normalizeWalletList Some [''0xbb'', ''0xA'', ''0xCCC''] = Some [''0xA'', ''0xbb'', ''0xCCC''] \<and>
   (\<exists>N'. normalizeWalletList Some [''0xCCC'', ''0xbb'', ''0xA''] = Some N' \<and>
      root (buildAllowlistMerkleData sample_pair_hash sample_leaf_hash
             [''0xA'', ''0xbb'', ''0xCCC''])
      = root (buildAllowlistMerkleData sample_pair_hash sample_leaf_hash N'))"
proof -
  have h1: "mset [''0xbb'', ''0xA'', ''0xCCC''] = mset [''0xCCC'', ''0xbb'', ''0xA'']"
    by (simp add: add.commute add.left_commute)
  have h2: "\<forall>a \<in> set [''0xbb'', ''0xA'', ''0xCCC'']. \<forall>b \<in> set [''0xbb'', ''0xA'', ''0xCCC''].
      \<forall>x y. Some a = Some x \<longrightarrow> Some b = Some y \<longrightarrow> toLowerCase x = toLowerCase y \<longrightarrow> x = y"
    by (simp add: toLowerCase_def)
  have h3: "normalizeWalletList Some [''0xbb'', ''0xA'', ''0xCCC''] = Some [''0xA'', ''0xbb'', ''0xCCC'']"
    by code_simp
  show ?thesis
    using h1 h3 merkle_root_order_independent_normalized [OF h1 h2 h3] by blast
qed

section \<open>Transaction reliability layer (the contract client, src/unnamed/part_002)\<close>

definition GAS_LIMIT_FALLBACK :: int where
  "GAS_LIMIT_FALLBACK = 280000"

definition GAS_LIMIT_BUFFER_NUMERATOR :: int where
  "GAS_LIMIT_BUFFER_NUMERATOR = 12"

definition GAS_LIMIT_BUFFER_DENOMINATOR :: int where
  "GAS_LIMIT_BUFFER_DENOMINATOR = 10"

definition TX_SEND_MAX_ATTEMPTS :: nat where
  "TX_SEND_MAX_ATTEMPTS = 3"

definition SUSPICIOUS_NONCE_GAP :: int where
  "SUSPICIOUS_NONCE_GAP = 25"

definition TX_RETRY_BASE_DELAY_MS :: nat where
  "TX_RETRY_BASE_DELAY_MS = 350"

text \<open>
  The two retry settings come from the environment:
  \<open>Math.max(1, Number(env || 2))\<close> and \<open>Math.max(0, Number(env || 250))\<close>. The argument is
  the number the variable holds (\<open>None\<close> when it is unset or empty), taken to be a
  natural number: an attempt count and a delay in milliseconds.
\<close>

definition READ_RETRY_ATTEMPTS :: "nat option \<Rightarrow> nat" where
  "READ_RETRY_ATTEMPTS env = max 1 (case env of None \<Rightarrow> 2 | Some n \<Rightarrow> n)"

definition READ_RETRY_DELAY_MS :: "nat option \<Rightarrow> nat" where
  "READ_RETRY_DELAY_MS env = max 0 (case env of None \<Rightarrow> 250 | Some n \<Rightarrow> n)"

subsection \<open>Errors thrown by a provider or a wallet\<close>

text \<open>
  A thrown value is read only through optional chains that end in a text: the fields
  below, \<open>None\<close> where the chain yields \<open>undefined\<close>. \<open>error_reason\<close> stands for
  \<open>error?.error?.reason\<close>, and so on for the other paths.
\<close>

record rpc_error =
  reason :: "string option"
  shortMessage :: "string option"
  message :: "string option"
  code :: "string option"
  error_reason :: "string option"
  error_message :: "string option"
  data_message :: "string option"
  data_originalError_message :: "string option"
  error_data_message :: "string option"
  error_data_originalError_message :: "string option"
  info_error_message :: "string option"

text \<open>The value \<open>undefined\<close> seen as an error: every chain yields \<open>undefined\<close>.\<close>

definition undefined_error :: rpc_error where
  "undefined_error =
     \<lparr>reason = None, shortMessage = None, message = None, code = None, error_reason = None,
      error_message = None, data_message = None, data_originalError_message = None,
      error_data_message = None, error_data_originalError_message = None,
      info_error_message = None\<rparr>"

text \<open>\<open>new Error(text)\<close>: only \<open>message\<close> is set.\<close>

definition new_Error :: "string \<Rightarrow> rpc_error" where
  "new_Error text = undefined_error\<lparr>message := Some text\<rparr>"

datatype 'a outcome = Returns 'a | Throws rpc_error

text \<open>\<open>a || b || ""\<close> on optional texts: the first that is present and not empty.\<close>

fun firstTruthy :: "string option list \<Rightarrow> string" where
  "firstTruthy [] = []"
| "firstTruthy (None # rest) = firstTruthy rest"
| "firstTruthy (Some s # rest) = (if s = [] then firstTruthy rest else s)"

text \<open>\<open>parts.filter(Boolean)\<close> on optional texts.\<close>

fun filterBoolean :: "string option list \<Rightarrow> string list" where
  "filterBoolean [] = []"
| "filterBoolean (None # rest) = filterBoolean rest"
| "filterBoolean (Some s # rest) = (if s = [] then filterBoolean rest else s # filterBoolean rest)"

definition isRetryableRpcError :: "rpc_error \<Rightarrow> bool" where
  "isRetryableRpcError error =
     (let msg = toLowerCase (firstTruthy [message error, reason error]);
          cd = toLowerCase (firstTruthy [code error])
      in str_includes cd ''timeout'' \<or>
         str_includes cd ''network'' \<or>
         str_includes cd ''server'' \<or>
         str_includes msg ''429'' \<or>
         str_includes msg ''rate limit'' \<or>
         str_includes msg ''timeout'' \<or>
         str_includes msg ''gateway timeout'' \<or>
         str_includes msg ''temporarily unavailable'' \<or>
         str_includes msg ''missing response'')"

definition extractRpcErrorMessage :: "rpc_error \<Rightarrow> string" where
  "extractRpcErrorMessage error =
     join '' | ''
       (filterBoolean
          [reason error, shortMessage error, message error, error_reason error,
           error_message error, data_message error, data_originalError_message error,
           error_data_message error, error_data_originalError_message error,
           info_error_message error])"

definition isLikelyRevertReason :: "string \<Rightarrow> bool" where
  "isLikelyRevertReason text =
     (let normalized = toLowerCase text
      in str_includes normalized ''execution reverted'' \<or>
         str_includes normalized ''revert'' \<or>
         str_includes normalized ''owner'' \<or>
         str_includes normalized ''metadata frozen'' \<or>
         str_includes normalized ''already frozen'' \<or>
         str_includes normalized ''invalid'' \<or>
         str_includes normalized ''not allowlisted'' \<or>
         str_includes normalized ''insufficient funds'')"

definition fee_mismatch_text :: string where
  "fee_mismatch_text = ''maxfeepergas cannot be less than maxpriorityfeepergas''"

definition isRetryableWriteTxError :: "rpc_error \<Rightarrow> bool" where
  "isRetryableWriteTxError error =
     (let msg = toLowerCase (extractRpcErrorMessage error);
          cd = toLowerCase (firstTruthy [code error])
      in str_includes cd ''timeout'' \<or>
         str_includes cd ''network'' \<or>
         str_includes cd ''server'' \<or>
         str_includes msg ''timeout'' \<or>
         str_includes msg ''temporarily unavailable'' \<or>
         str_includes msg ''missing response'' \<or>
         str_includes msg ''replacement transaction underpriced'' \<or>
         str_includes msg ''nonce too low'' \<or>
         str_includes msg ''nonce gap too high'' \<or>
         str_includes msg ''already known'' \<or>
         str_includes msg fee_mismatch_text)"

subsection \<open>Read path: \<open>withReadRetry\<close>\<close>

text \<open>
  \<open>task n\<close> is what the \<open>n\<close>-th call of the task does (attempts count from 1). The result
  records what the caller sees, how many times the task was called, and the
  \<open>setTimeout\<close> waits in milliseconds, in order; a wait of zero is skipped as in the
  source.
\<close>

record 'a retry_result =
  result :: "rpc_error + 'a"
  attempts :: nat
  delays :: "nat list"

function readLoop ::
  "nat \<Rightarrow> nat \<Rightarrow> (nat \<Rightarrow> 'a outcome) \<Rightarrow> nat \<Rightarrow> rpc_error \<Rightarrow> nat list \<Rightarrow> 'a retry_result"
where
  "readLoop retryAttempts retryDelayMs task attempt lastError waits =
     (if attempt \<le> retryAttempts then
        (case task attempt of
           Returns v \<Rightarrow> \<lparr>result = Inr v, attempts = attempt, delays = waits\<rparr>
         | Throws error \<Rightarrow>
             if attempt \<ge> retryAttempts \<or> \<not> isRetryableRpcError error
             then \<lparr>result = Inl error, attempts = attempt, delays = waits\<rparr>
             else
               let waitMs = retryDelayMs * attempt
               in readLoop retryAttempts retryDelayMs task (attempt + 1) error
                    (if waitMs > 0 then waits @ [waitMs] else waits))
      else \<lparr>result = Inl lastError, attempts = attempt - 1, delays = waits\<rparr>)"
  by pat_completeness auto
termination
  by (relation "measure (\<lambda>(n, d, task, attempt, e, waits). Suc n - attempt)") auto

definition withReadRetry :: "nat option \<Rightarrow> nat option \<Rightarrow> (nat \<Rightarrow> 'a outcome) \<Rightarrow> 'a retry_result" where
  "withReadRetry attemptsEnv delayEnv task =
     readLoop (READ_RETRY_ATTEMPTS attemptsEnv) (READ_RETRY_DELAY_MS delayEnv) task 1
       undefined_error []"

subsection \<open>Write path: \<open>buildTxOverrides\<close> and \<open>sendContractTxWithBufferedGas\<close>\<close>

text \<open>
  Amounts are \<open>ethers.BigNumber\<close>s: unbounded integers whose \<open>div\<close> truncates towards
  zero. A field of the fee data is \<open>None\<close> when it is \<open>null\<close> or \<open>undefined\<close> (falsy) and
  \<open>Some v\<close> when it is a BigNumber, which is truthy also for \<open>v = 0\<close>.
\<close>

record fee_data =
  fee_maxFeePerGas :: "int option"
  fee_maxPriorityFeePerGas :: "int option"
  fee_gasPrice :: "int option"

record tx_overrides =
  tx_value :: "int option"
  gasLimit :: int
  nonce :: "int option"
  maxPriorityFeePerGas :: "int option"
  maxFeePerGas :: "int option"
  gasPrice :: "int option"

text \<open>
  What the contract object answers while one set of overrides is built and submitted:
  \<open>estimateGas\<close> is \<open>None\<close> when \<open>contract.estimateGas[methodName]\<close> is no function;
  \<open>signerAddress\<close> is \<open>None\<close> when the signer has no address or \<open>getAddress\<close> rejects;
  \<open>provider\<close> is \<open>contract.provider || contract.signer.provider\<close>, with the two
  transaction counts and \<open>getFeeData\<close> (\<open>None\<close> when the provider has no such method);
  \<open>submit\<close> is the call of the contract method with the overrides.
\<close>

record provider_io =
  getTransactionCount_latest :: "int outcome"
  getTransactionCount_pending :: "int outcome"
  getFeeData :: "fee_data outcome option"

record 'tx contract_io =
  estimateGas :: "int outcome option"
  signerAddress :: "string option"
  provider :: "provider_io option"
  submit :: "tx_overrides \<Rightarrow> 'tx outcome"

definition one_gwei :: int where
  "one_gwei = 1000000000"

text \<open>Lines 563 to 582: the gas limit, or the simulated revert that ends the attempt.\<close>

definition resolveGasLimit :: "int \<Rightarrow> int outcome option \<Rightarrow> rpc_error + int" where
  "resolveGasLimit fallbackGasLimit estimateMethod =
     (case estimateMethod of
        None \<Rightarrow> Inr fallbackGasLimit
      | Some (Returns estimated) \<Rightarrow>
          Inr ((estimated * GAS_LIMIT_BUFFER_NUMERATOR) sdiv GAS_LIMIT_BUFFER_DENOMINATOR)
      | Some (Throws estimateError) \<Rightarrow>
          (let estimateMessage = extractRpcErrorMessage estimateError
           in if isLikelyRevertReason estimateMessage
              then Inl (new_Error (if estimateMessage = [] then ''Transaction simulation failed''
                                   else estimateMessage))
              else Inr fallbackGasLimit))"

text \<open>Lines 584 to 597: the nonce override; a failed count leaves the nonce to the wallet.\<close>

definition resolveNonce :: "'tx contract_io \<Rightarrow> int option" where
  "resolveNonce io =
     (case provider io of
        None \<Rightarrow> None
      | Some p \<Rightarrow>
          if firstTruthy [signerAddress io] = [] then None
          else
            (case getTransactionCount_latest p of
               Throws _ \<Rightarrow> None
             | Returns latestNonce \<Rightarrow>
                 (case getTransactionCount_pending p of
                    Throws _ \<Rightarrow> None
                  | Returns pendingNonce \<Rightarrow>
                      (let gap = max 0 (pendingNonce - latestNonce)
                       in Some (if gap > SUSPICIOUS_NONCE_GAP then latestNonce else pendingNonce)))))"

text \<open>Lines 599 to 634: the fee fields, EIP-1559 when the provider reports them and
  legacy mode is not forced, the legacy gas price otherwise.\<close>

definition resolveFees :: "bool \<Rightarrow> 'tx contract_io \<Rightarrow> tx_overrides \<Rightarrow> tx_overrides" where
  "resolveFees forceLegacyGasPrice io txOverrides =
     (case provider io of
        None \<Rightarrow> txOverrides
      | Some p \<Rightarrow>
          (case getFeeData p of
             None \<Rightarrow> txOverrides
           | Some (Throws _) \<Rightarrow> txOverrides
           | Some (Returns feeData) \<Rightarrow>
               if \<not> forceLegacyGasPrice \<and>
                  (fee_maxFeePerGas feeData \<noteq> None \<or> fee_maxPriorityFeePerGas feeData \<noteq> None)
               then
                 (let priority0 = (case fee_maxPriorityFeePerGas feeData of Some v \<Rightarrow> v | None \<Rightarrow> 0);
                      maxFee0 = (case fee_maxFeePerGas feeData of Some v \<Rightarrow> v | None \<Rightarrow> 0);
                      priority1 = (case fee_gasPrice feeData of
                                     Some g \<Rightarrow> if priority0 \<le> 0 then g else priority0
                                   | None \<Rightarrow> priority0);
                      priority2 = (if priority1 \<le> 0 then one_gwei else priority1);
                      maxFee1 = (case fee_gasPrice feeData of
                                   Some g \<Rightarrow> if maxFee0 \<le> 0 then g else maxFee0
                                 | None \<Rightarrow> maxFee0);
                      maxFee2 = (if maxFee1 \<le> priority2 then priority2 * 2 else maxFee1)
                  in txOverrides\<lparr>maxPriorityFeePerGas := Some priority2,
                                  maxFeePerGas := Some maxFee2\<rparr>)
               else
                 (case fee_gasPrice feeData of
                    Some g \<Rightarrow> txOverrides\<lparr>gasPrice := Some g\<rparr>
                  | None \<Rightarrow> txOverrides)))"

definition buildTxOverrides ::
  "int \<Rightarrow> int option \<Rightarrow> bool \<Rightarrow> 'tx contract_io \<Rightarrow> rpc_error + tx_overrides"
where
  "buildTxOverrides fallbackGasLimit callValue forceLegacyGasPrice io =
     (case resolveGasLimit fallbackGasLimit (estimateGas io) of
        Inl simulated \<Rightarrow> Inl simulated
      | Inr limit \<Rightarrow>
          Inr (resolveFees forceLegacyGasPrice io
                 \<lparr>tx_value = callValue, gasLimit = limit, nonce = resolveNonce io,
                  maxPriorityFeePerGas = None, maxFeePerGas = None, gasPrice = None\<rparr>))"

text \<open>
  The options of a send: \<open>None\<close> (or zero, which is falsy) selects the default.
  \<open>io n\<close> is what the contract answers during the \<open>n\<close>-th attempt. The result also counts
  how often the contract method itself was called.
\<close>

record send_options =
  opt_value :: "int option"
  opt_fallbackGasLimit :: "int option"
  opt_maxAttempts :: "nat option"

record 'tx send_result =
  sent :: "rpc_error + 'tx"
  send_attempts :: nat
  send_delays :: "nat list"
  submissions :: nat

function sendLoop ::
  "int \<Rightarrow> int option \<Rightarrow> nat \<Rightarrow> (nat \<Rightarrow> 'tx contract_io) \<Rightarrow> nat \<Rightarrow> bool \<Rightarrow> rpc_error \<Rightarrow>
   nat list \<Rightarrow> nat \<Rightarrow> 'tx send_result"
where
  "sendLoop fallbackGasLimit callValue maxAttempts io attempt forceLegacyGasOnRetry lastError
       waits calls =
     (if attempt \<le> maxAttempts then
        (case (case buildTxOverrides fallbackGasLimit callValue forceLegacyGasOnRetry (io attempt) of
                 Inl simulated \<Rightarrow> (Throws simulated, calls)
               | Inr txOverrides \<Rightarrow> (submit (io attempt) txOverrides, Suc calls)) of
           (Returns tx, calls') \<Rightarrow>
             \<lparr>sent = Inr tx, send_attempts = attempt, send_delays = waits, submissions = calls'\<rparr>
         | (Throws error, calls') \<Rightarrow>
             (let msg = toLowerCase (extractRpcErrorMessage error);
                  forceLegacy' = (if str_includes msg fee_mismatch_text then True
                                  else forceLegacyGasOnRetry)
              in if attempt \<ge> maxAttempts \<or> \<not> isRetryableWriteTxError error
                 then \<lparr>sent = Inl error, send_attempts = attempt, send_delays = waits,
                       submissions = calls'\<rparr>
                 else sendLoop fallbackGasLimit callValue maxAttempts io (attempt + 1) forceLegacy'
                        error (waits @ [TX_RETRY_BASE_DELAY_MS * attempt]) calls'))
      else \<lparr>sent = Inl lastError, send_attempts = attempt - 1, send_delays = waits,
            submissions = calls\<rparr>)"
  by pat_completeness auto
termination
  by (relation "measure (\<lambda>(f, v, n, io, attempt, rest). Suc n - attempt)") auto

text \<open>\<open>hasMethod\<close> tells whether \<open>contract[methodName]\<close> is a function.\<close>

definition sendContractTxWithBufferedGas ::
  "bool \<Rightarrow> string \<Rightarrow> send_options \<Rightarrow> (nat \<Rightarrow> 'tx contract_io) \<Rightarrow> 'tx send_result"
where
  "sendContractTxWithBufferedGas hasMethod methodName options io =
     (if \<not> hasMethod
      then \<lparr>sent = Inl (new_Error (''Contract method not found: '' @ methodName)),
            send_attempts = 0, send_delays = [], submissions = 0\<rparr>
      else
        let fallbackGasLimit = (case opt_fallbackGasLimit options of
                                  None \<Rightarrow> GAS_LIMIT_FALLBACK
                                | Some g \<Rightarrow> if g = 0 then GAS_LIMIT_FALLBACK else g);
            maxAttempts = max 1 (case opt_maxAttempts options of
                                   None \<Rightarrow> TX_SEND_MAX_ATTEMPTS
                                 | Some n \<Rightarrow> if n = 0 then TX_SEND_MAX_ATTEMPTS else n)
        in sendLoop fallbackGasLimit (opt_value options) maxAttempts io 1 False undefined_error
             [] 0)"

text \<open>
  A contract whose method always returns, with a given answer of the gas estimation and
  a given provider, and a provider that answers the fee data only; \<open>every_attempt\<close>
  gives the same answers in each attempt.
\<close>

definition sample_contract :: "int outcome option \<Rightarrow> provider_io option \<Rightarrow> unit contract_io" where
  "sample_contract estimate prov =
     \<lparr>estimateGas = estimate, signerAddress = None, provider = prov,
      submit = (\<lambda>txOverrides. Returns ())\<rparr>"

definition sample_fee_provider :: "fee_data \<Rightarrow> provider_io" where
  "sample_fee_provider feeData =
     \<lparr>getTransactionCount_latest = Returns 0, getTransactionCount_pending = Returns 0,
      getFeeData = Some (Returns feeData)\<rparr>"

definition every_attempt :: "'a \<Rightarrow> nat \<Rightarrow> 'a" where
  "every_attempt io attempt = io"

definition default_options :: send_options where
  "default_options = \<lparr>opt_value = None, opt_fallbackGasLimit = None, opt_maxAttempts = None\<rparr>"

text \<open>The fallback gas limit and the attempt count a send works with:
  \<open>Number(options.fallbackGasLimit || GAS_LIMIT_FALLBACK)\<close> and
  \<open>Math.max(1, Number(options.maxAttempts || TX_SEND_MAX_ATTEMPTS))\<close>.\<close>

definition resolvedFallbackGasLimit :: "send_options \<Rightarrow> int" where
  "resolvedFallbackGasLimit options =
     (case opt_fallbackGasLimit options of
        None \<Rightarrow> GAS_LIMIT_FALLBACK
      | Some g \<Rightarrow> if g = 0 then GAS_LIMIT_FALLBACK else g)"

definition resolvedMaxAttempts :: "send_options \<Rightarrow> nat" where
  "resolvedMaxAttempts options =
     max 1 (case opt_maxAttempts options of
              None \<Rightarrow> TX_SEND_MAX_ATTEMPTS
            | Some n \<Rightarrow> if n = 0 then TX_SEND_MAX_ATTEMPTS else n)"

text \<open>
  The states in which the attempts of a send start.
  \<open>attemptReached options io k force lastError waits calls\<close> says that the \<open>k\<close>-th pass
  of the \<open>for\<close> loop begins with the legacy-fee flag \<open>force\<close>, the last error, the waits
  made so far and the number of calls of the contract method so far. The first pass
  begins as the source initialises the loop; a further pass begins when the one before
  has thrown an error that \<open>isRetryableWriteTxError\<close> accepts and attempts remain.
\<close>

inductive attemptReached ::
  "send_options \<Rightarrow> (nat \<Rightarrow> 'tx contract_io) \<Rightarrow> nat \<Rightarrow> bool \<Rightarrow> rpc_error \<Rightarrow> nat list \<Rightarrow> nat \<Rightarrow> bool"
  for options :: send_options and io :: "nat \<Rightarrow> 'tx contract_io"
where
  first: "attemptReached options io 1 False undefined_error [] 0"
| retry:
    "attemptReached options io attempt forceLegacyGasOnRetry lastError waits calls \<Longrightarrow>
     (case buildTxOverrides (resolvedFallbackGasLimit options) (opt_value options)
             forceLegacyGasOnRetry (io attempt) of
        Inl simulated \<Rightarrow> (Throws simulated, calls)
      | Inr txOverrides \<Rightarrow> (submit (io attempt) txOverrides, Suc calls)) = (Throws error, calls') \<Longrightarrow>
     attempt < resolvedMaxAttempts options \<Longrightarrow>
     isRetryableWriteTxError error \<Longrightarrow>
     attemptReached options io (attempt + 1)
       (if str_includes (toLowerCase (extractRpcErrorMessage error)) fee_mismatch_text then True
        else forceLegacyGasOnRetry)
       error (waits @ [TX_RETRY_BASE_DELAY_MS * attempt]) calls'"

code_pred attemptReached .

text \<open>
  Further contracts to run a send on: one whose method returns the gas limit it was
  called with, one whose method throws a given error, and answers that differ between
  the first attempt and the later ones.
\<close>

definition echo_contract :: "int outcome option \<Rightarrow> int contract_io" where
  "echo_contract estimate =
     \<lparr>estimateGas = estimate, signerAddress = None, provider = None,
      submit = (\<lambda>txOverrides. Returns (gasLimit txOverrides))\<rparr>"

definition rejecting_contract :: "int outcome option \<Rightarrow> rpc_error \<Rightarrow> int contract_io" where
  "rejecting_contract estimate error =
     \<lparr>estimateGas = estimate, signerAddress = None, provider = None,
      submit = (\<lambda>txOverrides. Throws error)\<rparr>"

definition first_then :: "'a \<Rightarrow> 'a \<Rightarrow> nat \<Rightarrow> 'a" where
  "first_then io io' attempt = (if attempt = 1 then io else io')"

subsection \<open>Facts about the write path and the retry loops\<close>

declare readLoop.simps [simp del] sendLoop.simps [simp del]

lemma sdiv_nonneg: "0 \<le> a \<Longrightarrow> 0 < b \<Longrightarrow> a sdiv b = a div (b::int)"
  by (simp add: signed_divide_int_def sgn_if)

lemma gasLimit_resolveFees: "gasLimit (resolveFees force io ov) = gasLimit ov"
  by (simp add: resolveFees_def Let_def split: option.splits outcome.splits)

lemma nonce_resolveFees: "nonce (resolveFees force io ov) = nonce ov"
  by (simp add: resolveFees_def Let_def split: option.splits outcome.splits)

lemma isLikelyRevertReason_nonempty: "isLikelyRevertReason text \<Longrightarrow> text \<noteq> []"
  by (auto simp: isLikelyRevertReason_def toLowerCase_def)

lemma sendLoop_attempt_final:
  assumes "buildTxOverrides fb v force (io k) = Inl e" and "\<not> isRetryableWriteTxError e"
    and "k \<le> n"
  shows "sendLoop fb v n io k force lastError waits calls =
           \<lparr>sent = Inl e, send_attempts = k, send_delays = waits, submissions = calls\<rparr>"
  using assms by (subst sendLoop.simps) (simp add: Let_def)

lemma sendLoop_submit:
  assumes "buildTxOverrides fb v force (io k) = Inr ov" and "k \<le> n"
  shows "sendLoop fb v n io k force lastError waits calls =
           (case submit (io k) ov of
              Returns tx \<Rightarrow>
                \<lparr>sent = Inr tx, send_attempts = k, send_delays = waits, submissions = Suc calls\<rparr>
            | Throws error \<Rightarrow>
                if k \<ge> n \<or> \<not> isRetryableWriteTxError error
                then \<lparr>sent = Inl error, send_attempts = k, send_delays = waits,
                      submissions = Suc calls\<rparr>
                else sendLoop fb v n io (k + 1)
                       (if str_includes (toLowerCase (extractRpcErrorMessage error)) fee_mismatch_text
                        then True else force)
                       error (waits @ [TX_RETRY_BASE_DELAY_MS * k]) (Suc calls))"
  using assms by (subst sendLoop.simps) (simp add: Let_def split: outcome.splits)

lemma sendLoop_retry:
  assumes "(case buildTxOverrides fb v force (io k) of
              Inl simulated \<Rightarrow> (Throws simulated, calls)
            | Inr txOverrides \<Rightarrow> (submit (io k) txOverrides, Suc calls)) = (Throws error, calls')"
    and "k < n" and "isRetryableWriteTxError error"
  shows "sendLoop fb v n io k force lastError waits calls =
           sendLoop fb v n io (k + 1)
             (if str_includes (toLowerCase (extractRpcErrorMessage error)) fee_mismatch_text
              then True else force)
             error (waits @ [TX_RETRY_BASE_DELAY_MS * k]) calls'"
  using assms by (subst sendLoop.simps) (simp add: Let_def)

lemma attemptReached_sendLoop:
  assumes "attemptReached options io k force lastError waits calls"
  shows "k \<le> resolvedMaxAttempts options \<and>
         sendContractTxWithBufferedGas True methodName options io =
           sendLoop (resolvedFallbackGasLimit options) (opt_value options)
             (resolvedMaxAttempts options) io k force lastError waits calls"
  using assms
proof (induction rule: attemptReached.induct)
  case first
  show ?case
    by (simp add: sendContractTxWithBufferedGas_def resolvedFallbackGasLimit_def
        resolvedMaxAttempts_def Let_def)
next
  case (retry attempt force lastError waits calls error calls')
  then show ?case
    by (simp add: sendLoop_retry)
qed

lemma readLoop_settles:
  assumes "1 \<le> attempt" and "attempt \<le> k" and "k \<le> N"
    and "\<forall>j. attempt \<le> j \<and> j < k \<longrightarrow> (\<exists>e. task j = Throws e \<and> isRetryableRpcError e)"
    and "k = N \<or> (case task k of Returns v \<Rightarrow> True | Throws e \<Rightarrow> \<not> isRetryableRpcError e)"
  shows "readLoop N D task attempt lastError waits =
           \<lparr>result = (case task k of Returns v \<Rightarrow> Inr v | Throws e \<Rightarrow> Inl e),
            attempts = k,
            delays = waits @ (if D = 0 then [] else map (\<lambda>j. D * j) [attempt..<k])\<rparr>"
  using assms
proof (induction "k - attempt" arbitrary: attempt lastError waits)
  case 0
  then have "attempt = k" by simp
  with 0 show ?case
    by (subst readLoop.simps) (auto split: outcome.splits)
next
  case (Suc d)
  then have less: "attempt < k" by simp
  with Suc.prems obtain e where e: "task attempt = Throws e" "isRetryableRpcError e"
    by blast
  have IH: "readLoop N D task (Suc attempt) e ws =
           \<lparr>result = (case task k of Returns v \<Rightarrow> Inr v | Throws e \<Rightarrow> Inl e),
            attempts = k,
            delays = ws @ (if D = 0 then [] else map (\<lambda>j. D * j) [Suc attempt..<k])\<rparr>" for ws
    using Suc.hyps(2) Suc.prems less by (intro Suc.hyps(1)) auto
  have upt: "[attempt..<k] = attempt # [Suc attempt..<k]"
    using less by (simp add: upt_conv_Cons)
  show ?case
    using e less Suc.prems(1,3) by (subst readLoop.simps) (simp add: IH upt Let_def)
qed

subsection \<open>Claims about the transaction reliability layer\<close>

text \<open>
  C4 (gas buffer). When the gas estimation of the call succeeds with the estimate \<open>E\<close>
  (a gas amount, so not negative), \<open>buildTxOverrides\<close> returns overrides whose
  \<open>gasLimit\<close> is \<open>E * 12 div 10\<close> in exact integer arithmetic, rounded down; for
  \<open>E = 100000\<close> the gas limit is exactly \<open>120000\<close>.
\<close>

theorem gas_buffer:
  assumes "estimateGas io = Some (Returns E)" and "0 \<le> E"
  shows "\<exists>ov. buildTxOverrides fallbackGasLimit callValue forceLegacy io = Inr ov \<and>
              gasLimit ov = (E * 12) div 10"
  using assms
  by (simp add: buildTxOverrides_def resolveGasLimit_def gasLimit_resolveFees sdiv_nonneg
      GAS_LIMIT_BUFFER_NUMERATOR_def GAS_LIMIT_BUFFER_DENOMINATOR_def)

theorem gas_buffer_witness:
  "estimateGas \<lparr>estimateGas = Some (Returns 100000), signerAddress = None, provider = None,
       submit = (\<lambda>ov. Returns ())\<rparr> = Some (Returns 100000) \<and> (0::int) \<le> 100000 \<and>
   (\<exists>ov. buildTxOverrides GAS_LIMIT_FALLBACK None False
            \<lparr>estimateGas = Some (Returns 100000), signerAddress = None, provider = None,
             submit = (\<lambda>ov. Returns ())\<rparr> = Inr ov \<and> gasLimit ov = 120000)"
proof -
  let ?io = "\<lparr>estimateGas = Some (Returns 100000), signerAddress = None, provider = None,
       submit = (\<lambda>ov. Returns ())\<rparr>"
  have h1: "estimateGas ?io = Some (Returns 100000)" by simp
  have h2: "(0::int) \<le> 100000" by simp
  show ?thesis
    using h1 h2 gas_buffer [OF h1 h2, of GAS_LIMIT_FALLBACK None False] by simp
qed

text \<open>
  C5 (nonce-gap resolution). When a provider and a signer address are at hand and both
  transaction counts are read successfully, the nonce override is the pending count if
  \<open>pending - latest \<le> 25\<close> and the latest count if the gap exceeds 25; for
  \<open>latest = 10\<close> and \<open>pending = 40\<close> the nonce is 10.
\<close>

theorem nonce_gap_resolution:
  assumes "provider io = Some p"
    and "signerAddress io = Some address" and "address \<noteq> []"
    and "getTransactionCount_latest p = Returns latest"
    and "getTransactionCount_pending p = Returns pending"
    and "buildTxOverrides fallbackGasLimit callValue forceLegacy io = Inr ov"
  shows "nonce ov = Some (if pending - latest \<le> 25 then pending else latest)"
  using assms
  by (auto simp: buildTxOverrides_def resolveNonce_def nonce_resolveFees SUSPICIOUS_NONCE_GAP_def
      Let_def split: sum.splits)

theorem nonce_gap_resolution_witness:
  "provider \<lparr>estimateGas = None, signerAddress = Some ''0xabc'',
       provider = Some \<lparr>getTransactionCount_latest = Returns 10,
                         getTransactionCount_pending = Returns 40, getFeeData = None\<rparr>,
       submit = (\<lambda>ov. Returns ())\<rparr>
     = Some \<lparr>getTransactionCount_latest = Returns 10,
             getTransactionCount_pending = Returns 40, getFeeData = None\<rparr> \<and>
   ''0xabc'' \<noteq> [] \<and>
   buildTxOverrides GAS_LIMIT_FALLBACK None False
     \<lparr>estimateGas = None, signerAddress = Some ''0xabc'',
      provider = Some \<lparr>getTransactionCount_latest = Returns 10,
                        getTransactionCount_pending = Returns 40, getFeeData = None\<rparr>,
      submit = (\<lambda>ov. Returns ())\<rparr>
     = Inr \<lparr>tx_value = None, gasLimit = 280000, nonce = Some 10,
            maxPriorityFeePerGas = None, maxFeePerGas = None, gasPrice = None\<rparr>"
proof -
  let ?p = "\<lparr>getTransactionCount_latest = Returns 10,
             getTransactionCount_pending = Returns 40, getFeeData = None\<rparr>"
  let ?io = "\<lparr>estimateGas = None, signerAddress = Some ''0xabc'', provider = Some ?p,
              submit = (\<lambda>ov. Returns ())\<rparr>"
  let ?ov = "\<lparr>tx_value = None, gasLimit = 280000, nonce = Some 10,
            maxPriorityFeePerGas = None, maxFeePerGas = None, gasPrice = None\<rparr>"
  have h1: "provider ?io = Some ?p" by simp
  have h2: "signerAddress ?io = Some ''0xabc''" by simp
  have h3: "''0xabc'' \<noteq> []" by simp
  have h4: "getTransactionCount_latest ?p = Returns 10" by simp
  have h5: "getTransactionCount_pending ?p = Returns 40" by simp
  have h6: "buildTxOverrides GAS_LIMIT_FALLBACK None False ?io = Inr ?ov"
    by (simp add: buildTxOverrides_def resolveGasLimit_def resolveNonce_def resolveFees_def
        GAS_LIMIT_FALLBACK_def SUSPICIOUS_NONCE_GAP_def)
  have "nonce ?ov = Some (if (40::int) - 10 \<le> 25 then 40 else 10)"
    by (rule nonce_gap_resolution [OF h1 h2 h3 h4 h5 h6])
  with h1 h3 h6 show ?thesis by simp
qed

text \<open>
  C6 (EIP-1559 fee consistency), as stated: whenever the provider reports a zero or
  absent priority fee, the emitted \<open>maxPriorityFeePerGas\<close> is at least 1 gwei. The code
  first falls back to the reported \<open>gasPrice\<close> and only then to 1 gwei: with a zero
  priority fee and a gas price of 0.5 gwei the emitted priority fee is 0.5 gwei.
\<close>

theorem fee_floor_counterexample:
  "buildTxOverrides GAS_LIMIT_FALLBACK None False
     (sample_contract None
        (Some (sample_fee_provider
                 \<lparr>fee_maxFeePerGas = Some 2000000000, fee_maxPriorityFeePerGas = Some 0,
                  fee_gasPrice = Some 500000000\<rparr>)))
   = Inr \<lparr>tx_value = None, gasLimit = 280000, nonce = None,
          maxPriorityFeePerGas = Some 500000000, maxFeePerGas = Some 2000000000,
          gasPrice = None\<rparr> \<and>
   500000000 < one_gwei"
  by (simp add: buildTxOverrides_def resolveGasLimit_def resolveNonce_def resolveFees_def
      GAS_LIMIT_FALLBACK_def one_gwei_def sample_contract_def sample_fee_provider_def)

text \<open>
  C6, amended: for every fee-data input for which EIP-1559 overrides are emitted (legacy
  mode not forced, one of the two 1559 fields present), both fields are set and no
  legacy gas price, \<open>maxFeePerGas \<ge> maxPriorityFeePerGas\<close>, and the priority fee is
  positive; whenever the provider reports a zero or absent priority fee, the emitted
  priority fee is the reported \<open>gasPrice\<close> when that is positive and 1 gwei otherwise.
\<close>

theorem eip1559_fee_consistency:
  assumes "buildTxOverrides fallbackGasLimit callValue False io = Inr ov"
    and "provider io = Some p"
    and "getFeeData p = Some (Returns feeData)"
    and "fee_maxFeePerGas feeData \<noteq> None \<or> fee_maxPriorityFeePerGas feeData \<noteq> None"
  shows "\<exists>priority maxFee.
           maxPriorityFeePerGas ov = Some priority \<and> maxFeePerGas ov = Some maxFee \<and>
           gasPrice ov = None \<and> maxFee \<ge> priority \<and> priority > 0 \<and>
           (fee_maxPriorityFeePerGas feeData = None \<or> fee_maxPriorityFeePerGas feeData = Some 0
            \<longrightarrow> priority = (case fee_gasPrice feeData of
                               Some g \<Rightarrow> if g > 0 then g else one_gwei
                             | None \<Rightarrow> one_gwei))"
  using assms
  by (auto simp: buildTxOverrides_def resolveFees_def Let_def one_gwei_def
      split: sum.splits option.splits if_splits)

theorem eip1559_fee_consistency_witness:
  "buildTxOverrides GAS_LIMIT_FALLBACK None False
     \<lparr>estimateGas = None, signerAddress = None,
      provider = Some \<lparr>getTransactionCount_latest = Returns 0,
                        getTransactionCount_pending = Returns 0,
                        getFeeData = Some (Returns \<lparr>fee_maxFeePerGas = Some 3,
                                                    fee_maxPriorityFeePerGas = Some 0,
                                                    fee_gasPrice = None\<rparr>)\<rparr>,
      submit = (\<lambda>ov. Returns ())\<rparr>
   = Inr \<lparr>tx_value = None, gasLimit = 280000, nonce = None,
          maxPriorityFeePerGas = Some 1000000000, maxFeePerGas = Some 2000000000,
          gasPrice = None\<rparr> \<and>
   (\<exists>priority maxFee. Some (1000000000::int) = Some priority \<and> Some (2000000000::int) = Some maxFee \<and>
      maxFee \<ge> priority \<and> priority > 0 \<and> priority = one_gwei)"
proof -
  let ?fd = "\<lparr>fee_maxFeePerGas = Some 3, fee_maxPriorityFeePerGas = Some 0, fee_gasPrice = None\<rparr>"
  let ?p = "\<lparr>getTransactionCount_latest = Returns 0, getTransactionCount_pending = Returns 0,
             getFeeData = Some (Returns ?fd)\<rparr>"
  let ?io = "\<lparr>estimateGas = None, signerAddress = None, provider = Some ?p,
              submit = (\<lambda>ov. Returns ())\<rparr>"
  let ?ov = "\<lparr>tx_value = None, gasLimit = 280000, nonce = None,
          maxPriorityFeePerGas = Some 1000000000, maxFeePerGas = Some 2000000000,
          gasPrice = None\<rparr>"
  have h1: "buildTxOverrides GAS_LIMIT_FALLBACK None False ?io = Inr ?ov"
    by (simp add: buildTxOverrides_def resolveGasLimit_def resolveNonce_def resolveFees_def
        GAS_LIMIT_FALLBACK_def one_gwei_def)
  have h2: "provider ?io = Some ?p" by simp
  have h3: "getFeeData ?p = Some (Returns ?fd)" by simp
  have h4: "fee_maxFeePerGas ?fd \<noteq> None \<or> fee_maxPriorityFeePerGas ?fd \<noteq> None" by simp
  show ?thesis
    using h1 eip1559_fee_consistency [OF h1 h2 h3 h4] by simp
qed

text \<open>
  C7 (simulated-revert fast fail), as stated: an estimation error whose text contains
  one of "revert", "owner", "frozen", "invalid", "insufficient funds", "allowlisted"
  fails the send at once and is never retried. The code looks for "metadata frozen" and
  "already frozen", not for "frozen": on "contract is frozen" the error is swallowed and
  the overrides carry the fallback gas limit. And the simulated revert is thrown inside
  the retry loop, which classifies it like any other error: a revert text that also
  contains "timeout" is retried until the attempts are used up.
\<close>

theorem simulated_revert_counterexample:
  "str_includes (toLowerCase (extractRpcErrorMessage (new_Error ''contract is frozen''))) ''frozen'' \<and>
   buildTxOverrides GAS_LIMIT_FALLBACK None False
     (sample_contract (Some (Throws (new_Error ''contract is frozen''))) None)
   = Inr \<lparr>tx_value = None, gasLimit = 280000, nonce = None, maxPriorityFeePerGas = None,
          maxFeePerGas = None, gasPrice = None\<rparr> \<and>
   str_includes (toLowerCase (extractRpcErrorMessage
       (new_Error ''execution reverted: request timeout''))) ''revert'' \<and>
   sendContractTxWithBufferedGas True ''publicMint'' default_options
     (every_attempt
        (sample_contract (Some (Throws (new_Error ''execution reverted: request timeout''))) None))
   = \<lparr>sent = Inl (new_Error ''execution reverted: request timeout''), send_attempts = 3,
      send_delays = [350, 700], submissions = 0\<rparr>"
  by code_simp

text \<open>
  C7, amended: for every gas-estimation failure in the write path, in whichever attempt
  of the send it occurs: if the extracted error text matches one of the patterns of
  \<open>isLikelyRevertReason\<close> ("execution reverted", "revert", "owner", "metadata frozen",
  "already frozen", "invalid", "not allowlisted", "insufficient funds") and none of the
  retryable write patterns, the send fails in that attempt with that text, without a
  further wait, retry or call of the contract method; if the text matches no pattern of
  \<open>isLikelyRevertReason\<close>, the estimation error is swallowed and the transaction
  proceeds with the fixed fallback gas limit (\<open>options.fallbackGasLimit\<close>, or 280000):
  the attempt calls the contract method with overrides that carry this gas limit, and
  the send returns the transaction of that call, fails with its error, or goes on to
  the next attempt, as for any other submission.
\<close>

theorem simulated_revert_fast_fail:
  assumes "attemptReached options io k force lastError waits calls"
    and "estimateGas (io k) = Some (Throws e)"
  shows "(isLikelyRevertReason (extractRpcErrorMessage e) \<and>
          \<not> isRetryableWriteTxError (new_Error (extractRpcErrorMessage e)) \<longrightarrow>
            sendContractTxWithBufferedGas True methodName options io =
              \<lparr>sent = Inl (new_Error (extractRpcErrorMessage e)), send_attempts = k,
               send_delays = waits, submissions = calls\<rparr>) \<and>
         (\<not> isLikelyRevertReason (extractRpcErrorMessage e) \<longrightarrow>
            (\<exists>txOverrides.
               buildTxOverrides (resolvedFallbackGasLimit options) (opt_value options) force (io k)
                 = Inr txOverrides \<and>
               gasLimit txOverrides = resolvedFallbackGasLimit options \<and>
               (\<forall>tx. submit (io k) txOverrides = Returns tx \<longrightarrow>
                  sendContractTxWithBufferedGas True methodName options io =
                    \<lparr>sent = Inr tx, send_attempts = k, send_delays = waits,
                     submissions = Suc calls\<rparr>) \<and>
               (\<forall>error. submit (io k) txOverrides = Throws error \<and>
                    (k \<ge> resolvedMaxAttempts options \<or> \<not> isRetryableWriteTxError error) \<longrightarrow>
                  sendContractTxWithBufferedGas True methodName options io =
                    \<lparr>sent = Inl error, send_attempts = k, send_delays = waits,
                     submissions = Suc calls\<rparr>) \<and>
               (\<forall>error. submit (io k) txOverrides = Throws error \<and>
                    k < resolvedMaxAttempts options \<and> isRetryableWriteTxError error \<longrightarrow>
                  attemptReached options io (k + 1)
                    (if str_includes (toLowerCase (extractRpcErrorMessage error)) fee_mismatch_text
                     then True else force)
                    error (waits @ [TX_RETRY_BASE_DELAY_MS * k]) (Suc calls))))"
proof (intro conjI impI)
  note loop = attemptReached_sendLoop [OF assms(1), of methodName]
  assume a: "isLikelyRevertReason (extractRpcErrorMessage e) \<and>
          \<not> isRetryableWriteTxError (new_Error (extractRpcErrorMessage e))"
  then have nonempty: "extractRpcErrorMessage e \<noteq> []"
    by (simp add: isLikelyRevertReason_nonempty)
  have "buildTxOverrides (resolvedFallbackGasLimit options) (opt_value options) force (io k)
      = Inl (new_Error (extractRpcErrorMessage e))"
    using a nonempty assms(2) by (simp add: buildTxOverrides_def resolveGasLimit_def)
  then show "sendContractTxWithBufferedGas True methodName options io =
              \<lparr>sent = Inl (new_Error (extractRpcErrorMessage e)), send_attempts = k,
               send_delays = waits, submissions = calls\<rparr>"
    using a loop by (simp add: sendLoop_attempt_final)
next
  note loop = attemptReached_sendLoop [OF assms(1), of methodName]
  let ?fb = "resolvedFallbackGasLimit options"
  assume b: "\<not> isLikelyRevertReason (extractRpcErrorMessage e)"
  then obtain ov where ov: "buildTxOverrides ?fb (opt_value options) force (io k) = Inr ov"
    and limit: "gasLimit ov = ?fb"
    using assms(2) by (simp add: buildTxOverrides_def resolveGasLimit_def gasLimit_resolveFees)
  note step = sendLoop_submit [where io = io and k = k and n = "resolvedMaxAttempts options"
      and lastError = lastError and waits = waits and calls = calls, OF ov]
  have "\<forall>tx. submit (io k) ov = Returns tx \<longrightarrow>
          sendContractTxWithBufferedGas True methodName options io =
            \<lparr>sent = Inr tx, send_attempts = k, send_delays = waits, submissions = Suc calls\<rparr>"
    using loop step by simp
  moreover have "\<forall>error. submit (io k) ov = Throws error \<and>
          (k \<ge> resolvedMaxAttempts options \<or> \<not> isRetryableWriteTxError error) \<longrightarrow>
        sendContractTxWithBufferedGas True methodName options io =
          \<lparr>sent = Inl error, send_attempts = k, send_delays = waits, submissions = Suc calls\<rparr>"
    using loop step by auto
  moreover have "\<forall>error. submit (io k) ov = Throws error \<and>
          k < resolvedMaxAttempts options \<and> isRetryableWriteTxError error \<longrightarrow>
        attemptReached options io (k + 1)
          (if str_includes (toLowerCase (extractRpcErrorMessage error)) fee_mismatch_text
           then True else force)
          error (waits @ [TX_RETRY_BASE_DELAY_MS * k]) (Suc calls)"
  proof (intro allI impI)
    fix error
    assume h: "submit (io k) ov = Throws error \<and>
          k < resolvedMaxAttempts options \<and> isRetryableWriteTxError error"
    have outcome: "(case buildTxOverrides ?fb (opt_value options) force (io k) of
              Inl simulated \<Rightarrow> (Throws simulated, calls)
            | Inr txOverrides \<Rightarrow> (submit (io k) txOverrides, Suc calls)) = (Throws error, Suc calls)"
      using ov h by simp
    from h have "k < resolvedMaxAttempts options" "isRetryableWriteTxError error"
      by simp_all
    with assms(1) outcome show "attemptReached options io (k + 1)
          (if str_includes (toLowerCase (extractRpcErrorMessage error)) fee_mismatch_text
           then True else force)
          error (waits @ [TX_RETRY_BASE_DELAY_MS * k]) (Suc calls)"
      by (rule attemptReached.retry)
  qed
  ultimately show "\<exists>txOverrides.
               buildTxOverrides ?fb (opt_value options) force (io k) = Inr txOverrides \<and>
               gasLimit txOverrides = ?fb \<and>
               (\<forall>tx. submit (io k) txOverrides = Returns tx \<longrightarrow>
                  sendContractTxWithBufferedGas True methodName options io =
                    \<lparr>sent = Inr tx, send_attempts = k, send_delays = waits,
                     submissions = Suc calls\<rparr>) \<and>
               (\<forall>error. submit (io k) txOverrides = Throws error \<and>
                    (k \<ge> resolvedMaxAttempts options \<or> \<not> isRetryableWriteTxError error) \<longrightarrow>
                  sendContractTxWithBufferedGas True methodName options io =
                    \<lparr>sent = Inl error, send_attempts = k, send_delays = waits,
                     submissions = Suc calls\<rparr>) \<and>
               (\<forall>error. submit (io k) txOverrides = Throws error \<and>
                    k < resolvedMaxAttempts options \<and> isRetryableWriteTxError error \<longrightarrow>
                  attemptReached options io (k + 1)
                    (if str_includes (toLowerCase (extractRpcErrorMessage error)) fee_mismatch_text
                     then True else force)
                    error (waits @ [TX_RETRY_BASE_DELAY_MS * k]) (Suc calls))"
    using ov limit by blast
qed

theorem simulated_revert_fast_fail_witness:
  "\<not> isLikelyRevertReason (extractRpcErrorMessage (new_Error ''header not found'')) \<and>
   isRetryableWriteTxError (new_Error ''nonce too low'') \<and>
   isLikelyRevertReason (extractRpcErrorMessage (new_Error ''execution reverted: Not allowlisted'')) \<and>
   \<not> isRetryableWriteTxError
       (new_Error (extractRpcErrorMessage (new_Error ''execution reverted: Not allowlisted''))) \<and>
   sendContractTxWithBufferedGas True ''publicMint'' default_options
     (first_then
        (rejecting_contract (Some (Throws (new_Error ''header not found'')))
           (new_Error ''nonce too low''))
        (echo_contract (Some (Throws (new_Error ''execution reverted: Not allowlisted'')))))
   = \<lparr>sent = Inl (new_Error (extractRpcErrorMessage
                      (new_Error ''execution reverted: Not allowlisted''))),
      send_attempts = 2, send_delays = [350], submissions = 1\<rparr> \<and>
   sendContractTxWithBufferedGas True ''publicMint'' default_options
     (every_attempt (echo_contract (Some (Throws (new_Error ''header not found'')))))
   = \<lparr>sent = Inr 280000, send_attempts = 1, send_delays = [], submissions = 1\<rparr>"
proof -
  let ?unknown = "new_Error ''header not found''"
  let ?nonce = "new_Error ''nonce too low''"
  let ?revert = "new_Error ''execution reverted: Not allowlisted''"
  let ?io = "first_then (rejecting_contract (Some (Throws ?unknown)) ?nonce)
               (echo_contract (Some (Throws ?revert)))"
  let ?io' = "every_attempt (echo_contract (Some (Throws ?unknown)))"
  have e1: "\<not> isLikelyRevertReason (extractRpcErrorMessage ?unknown)" by code_simp
  have e2: "isRetryableWriteTxError ?nonce" by code_simp
  have e3: "isLikelyRevertReason (extractRpcErrorMessage ?revert)" by code_simp
  have e4: "\<not> isRetryableWriteTxError (new_Error (extractRpcErrorMessage ?revert))" by code_simp
  have e5: "\<not> str_includes (toLowerCase (extractRpcErrorMessage ?nonce)) fee_mismatch_text"
    by code_simp
  have limits: "resolvedMaxAttempts default_options = 3"
    "resolvedFallbackGasLimit default_options = 280000"
    by (simp_all add: resolvedMaxAttempts_def resolvedFallbackGasLimit_def default_options_def
        TX_SEND_MAX_ATTEMPTS_def GAS_LIMIT_FALLBACK_def)
  have start: "attemptReached default_options ?io 1 False undefined_error [] 0"
    by (rule attemptReached.first)
  have est1: "estimateGas (?io 1) = Some (Throws ?unknown)"
    by (simp add: first_then_def rejecting_contract_def)
  have sub1: "submit (?io 1) ov = Throws ?nonce" for ov
    by (simp add: first_then_def rejecting_contract_def)
  from simulated_revert_fast_fail [OF start est1, of "''publicMint''"] e1 e2 e5 sub1
  have second: "attemptReached default_options ?io (1 + 1) False ?nonce
      ([] @ [TX_RETRY_BASE_DELAY_MS * 1]) (Suc 0)"
    by (auto simp: limits)
  have est2: "estimateGas (?io (1 + 1)) = Some (Throws ?revert)"
    by (simp add: first_then_def echo_contract_def)
  from simulated_revert_fast_fail [OF second est2, of "''publicMint''"] e3 e4
  have late: "sendContractTxWithBufferedGas True ''publicMint'' default_options ?io =
      \<lparr>sent = Inl (new_Error (extractRpcErrorMessage ?revert)), send_attempts = 2,
       send_delays = [350], submissions = 1\<rparr>"
    by (simp add: TX_RETRY_BASE_DELAY_MS_def)
  have start': "attemptReached default_options ?io' 1 False undefined_error [] 0"
    by (rule attemptReached.first)
  have est': "estimateGas (?io' 1) = Some (Throws ?unknown)"
    by (simp add: every_attempt_def echo_contract_def)
  have sub': "submit (?io' 1) ov = Returns (gasLimit ov)" for ov
    by (simp add: every_attempt_def echo_contract_def)
  from simulated_revert_fast_fail [OF start' est', of "''publicMint''"] e1 sub'
  have fallback: "sendContractTxWithBufferedGas True ''publicMint'' default_options ?io' =
      \<lparr>sent = Inr 280000, send_attempts = 1, send_delays = [], submissions = 1\<rparr>"
    by (auto simp: limits)
  from e1 e2 e3 e4 late fallback show ?thesis by simp
qed

text \<open>
  C8 (read retry policy). Let the first \<open>k - 1\<close> calls of the task fail with errors
  classified retryable, with \<open>k\<close> within the configured attempt count. If the \<open>k\<close>-th call
  succeeds, its result is returned. If it fails with an error classified non-retryable,
  that error is propagated at once (for \<open>k = 1\<close>: after exactly one attempt, with no
  wait). If it fails and \<open>k\<close> is the configured attempt count, the last error is
  propagated. In each case the task was called \<open>k\<close> times and the waits before the
  attempts 2 to \<open>k\<close> were \<open>READ_RETRY_DELAY_MS * attemptNumber\<close> for the attempt numbers
  1 to \<open>k - 1\<close> (none when the delay is configured as zero).
\<close>

theorem read_retry_policy:
  assumes "1 \<le> k" and "k \<le> READ_RETRY_ATTEMPTS attemptsEnv"
    and "\<forall>j. 1 \<le> j \<and> j < k \<longrightarrow> (\<exists>e. task j = Throws e \<and> isRetryableRpcError e)"
  shows "(\<forall>v. task k = Returns v \<longrightarrow>
            withReadRetry attemptsEnv delayEnv task =
              \<lparr>result = Inr v, attempts = k,
               delays = (if READ_RETRY_DELAY_MS delayEnv = 0 then []
                         else map (\<lambda>j. READ_RETRY_DELAY_MS delayEnv * j) [1..<k])\<rparr>) \<and>
         (\<forall>e. task k = Throws e \<and> \<not> isRetryableRpcError e \<longrightarrow>
            withReadRetry attemptsEnv delayEnv task =
              \<lparr>result = Inl e, attempts = k,
               delays = (if READ_RETRY_DELAY_MS delayEnv = 0 then []
                         else map (\<lambda>j. READ_RETRY_DELAY_MS delayEnv * j) [1..<k])\<rparr>) \<and>
         (\<forall>e. task k = Throws e \<and> k = READ_RETRY_ATTEMPTS attemptsEnv \<longrightarrow>
            withReadRetry attemptsEnv delayEnv task =
              \<lparr>result = Inl e, attempts = k,
               delays = (if READ_RETRY_DELAY_MS delayEnv = 0 then []
                         else map (\<lambda>j. READ_RETRY_DELAY_MS delayEnv * j) [1..<k])\<rparr>)"
proof -
  have settle: "k = READ_RETRY_ATTEMPTS attemptsEnv \<or>
      (case task k of Returns v \<Rightarrow> True | Throws e \<Rightarrow> \<not> isRetryableRpcError e) \<Longrightarrow>
    withReadRetry attemptsEnv delayEnv task =
      \<lparr>result = (case task k of Returns v \<Rightarrow> Inr v | Throws e \<Rightarrow> Inl e), attempts = k,
       delays = (if READ_RETRY_DELAY_MS delayEnv = 0 then []
                 else map (\<lambda>j. READ_RETRY_DELAY_MS delayEnv * j) [1..<k])\<rparr>"
    unfolding withReadRetry_def
    using readLoop_settles [OF _ assms(1,2,3), of "READ_RETRY_DELAY_MS delayEnv" undefined_error "[]"]
    by simp
  show ?thesis
    using settle by auto
qed

theorem read_retry_policy_witness:
  "withReadRetry (Some 3) None
     (\<lambda>n. if n = 1 then Throws (undefined_error\<lparr>code := Some ''TIMEOUT''\<rparr>) else Returns (7::nat))
   = \<lparr>result = Inr 7, attempts = 2, delays = [250]\<rparr> \<and>
   withReadRetry (Some 3) None (\<lambda>n. Throws (new_Error ''execution reverted: Sold out'') :: nat outcome)
   = \<lparr>result = Inl (new_Error ''execution reverted: Sold out''), attempts = 1, delays = []\<rparr> \<and>
   withReadRetry None None (\<lambda>n. Throws (new_Error ''429 Too Many Requests'') :: nat outcome)
   = \<lparr>result = Inl (new_Error ''429 Too Many Requests''), attempts = 2, delays = [250]\<rparr>"
proof -
  let ?timeout = "undefined_error\<lparr>code := Some ''TIMEOUT''\<rparr>"
  let ?t1 = "\<lambda>n::nat. if n = 1 then Throws ?timeout else Returns (7::nat)"
  let ?revert = "new_Error ''execution reverted: Sold out''"
  let ?t2 = "\<lambda>n::nat. Throws ?revert :: nat outcome"
  let ?limited = "new_Error ''429 Too Many Requests''"
  let ?t3 = "\<lambda>n::nat. Throws ?limited :: nat outcome"
  have r1: "isRetryableRpcError ?timeout" by code_simp
  have r2: "\<not> isRetryableRpcError ?revert" by code_simp
  have r3: "isRetryableRpcError ?limited" by code_simp
  have n3: "READ_RETRY_ATTEMPTS (Some 3) = 3" and n2: "READ_RETRY_ATTEMPTS None = 2"
    and d: "READ_RETRY_DELAY_MS None = 250"
    by (simp_all add: READ_RETRY_ATTEMPTS_def READ_RETRY_DELAY_MS_def)
  have one: "(1::nat) \<le> 1" and two: "(1::nat) \<le> 2" by simp_all
  have a1: "\<forall>j. 1 \<le> j \<and> j < 2 \<longrightarrow> (\<exists>e. ?t1 j = Throws e \<and> isRetryableRpcError e)"
    using r1 by auto
  have a2: "\<forall>j. 1 \<le> j \<and> j < 1 \<longrightarrow> (\<exists>e. ?t2 j = Throws e \<and> isRetryableRpcError e)"
    by simp
  have a3: "\<forall>j. 1 \<le> j \<and> j < 2 \<longrightarrow> (\<exists>e. ?t3 j = Throws e \<and> isRetryableRpcError e)"
    using r3 by auto
  have k1: "2 \<le> READ_RETRY_ATTEMPTS (Some 3)" and k2: "1 \<le> READ_RETRY_ATTEMPTS (Some 3)"
    and k3: "2 \<le> READ_RETRY_ATTEMPTS None"
    by (simp_all add: n3 n2)
  have "withReadRetry (Some 3) None ?t1 = \<lparr>result = Inr 7, attempts = 2, delays = [250]\<rparr>"
    using read_retry_policy [OF two k1 a1, of None] by (simp add: d upt_rec)
  moreover
  have "withReadRetry (Some 3) None ?t2 = \<lparr>result = Inl ?revert, attempts = 1, delays = []\<rparr>"
    using read_retry_policy [OF one k2 a2, of None] r2 by (simp add: d)
  moreover
  have "withReadRetry None None ?t3 = \<lparr>result = Inl ?limited, attempts = 2, delays = [250]\<rparr>"
    using read_retry_policy [OF two k3 a3, of None] by (simp add: d n2 upt_rec)
  ultimately show ?thesis by simp
qed

section \<open>Allowlist publication endpoint (frontend/pages/api/allowlists/upsert.ts)\<close>

definition MAX_SIGNATURE_AGE_MS :: int where
  "MAX_SIGNATURE_AGE_MS = 5 * 60 * 1000"

subsection \<open>Values of the request\<close>

text \<open>
  A JavaScript number is a rational or not finite (\<open>NaN\<close>, \<open>Infinity\<close>, \<open>-Infinity\<close>,
  which the handler treats alike). A field of the JSON body that the handler tests with
  \<open>typeof value === "string"\<close> or a regular expression is \<open>None\<close> when it is missing or
  no string.
\<close>

datatype number = NotFinite | Finite rat

definition isInteger :: "number \<Rightarrow> bool" where
  "isInteger n = (case n of NotFinite \<Rightarrow> False | Finite q \<Rightarrow> q = of_int \<lfloor>q\<rfloor>)"

definition isHexDigit :: "char \<Rightarrow> bool" where
  "isHexDigit c =
     (CHR ''0'' \<le> c \<and> c \<le> CHR ''9'' \<or> CHR ''a'' \<le> c \<and> c \<le> CHR ''f'' \<or>
      CHR ''A'' \<le> c \<and> c \<le> CHR ''F'')"

text \<open>The regular expression \<open>/^0x[a-fA-F0-9]{lo,hi}$/\<close>.\<close>

definition isHex :: "nat \<Rightarrow> nat \<Rightarrow> string \<Rightarrow> bool" where
  "isHex lo hi s =
     (take 2 s = ''0x'' \<and> lo + 2 \<le> length s \<and> length s \<le> hi + 2 \<and>
      list_all isHexDigit (drop 2 s))"

definition isBytes32 :: "string option \<Rightarrow> bool" where
  "isBytes32 v = (case v of None \<Rightarrow> False | Some s \<Rightarrow> isHex 64 64 s)"

definition isAddress :: "string \<Rightarrow> bool" where
  "isAddress s = isHex 40 40 s"

definition isLikelySignature :: "string option \<Rightarrow> bool" where
  "isLikelySignature v = (case v of None \<Rightarrow> False | Some s \<Rightarrow> isHex 130 132 s)"

text \<open>\<open>isProofArray\<close>: \<open>None\<close> is a value that is no array of strings.\<close>

definition isProofArray :: "nat \<Rightarrow> string list option \<Rightarrow> bool" where
  "isProofArray maxProofDepth v =
     (case v of
        None \<Rightarrow> False
      | Some items \<Rightarrow> length items \<le> maxProofDepth \<and> list_all (\<lambda>item. isBytes32 (Some item)) items)"

text \<open>
  The request as the handler reads it. \<open>originAllowed\<close> is the value of
  \<open>isAllowedOrigin(req, origin)\<close> and \<open>requestIp\<close> that of \<open>resolveRequestIp(req)\<close>, both
  functions of the headers alone. \<open>body_phaseId\<close>, \<open>body_total\<close> and \<open>body_timestamp\<close>
  are the numbers after the conversions \<open>Number(req.body?.phaseId)\<close>,
  \<open>Number(req.body?.total || 0)\<close> and \<open>Number(req.body?.timestamp)\<close>. \<open>body_proofs\<close> is
  \<open>None\<close> unless the field is an object that is no array, and else its
  \<open>Object.entries\<close>.
\<close>

record upsert_request =
  req_method :: string
  originAllowed :: bool
  requestIp :: string
  contentType :: string
  body_phaseId :: number
  body_root :: "string option"
  body_proofs :: "(string \<times> string list option) list option"
  body_total :: number
  body_mode :: "string option"
  body_generatedAt :: "string option"
  body_signer :: "string option"
  body_proofsHash :: "string option"
  body_timestamp :: number
  body_signature :: "string option"

record payload =
  p_phaseId :: rat
  p_root :: string
  p_total :: rat
  p_generatedAt :: string
  p_mode :: string
  p_proofs :: "(string \<times> string list) list"

text \<open>
  What the handler takes from its libraries: \<open>ethers.utils.verifyMessage\<close> and
  \<open>ethers.utils.getAddress\<close> (\<open>None\<close> when they throw), \<open>keccak256(toUtf8Bytes(text))\<close>,
  the conversion of a number to text in a template literal, and
  \<open>JSON.stringify(payload, null, 2)\<close>.
\<close>

record library =
  ethers_verifyMessage :: "string \<Rightarrow> string \<Rightarrow> string option"
  ethers_getAddress :: "string \<Rightarrow> string option"
  ethers_keccak256Utf8 :: "string \<Rightarrow> string"
  js_String :: "rat \<Rightarrow> string"
  JSON_stringify :: "payload \<Rightarrow> string"

text \<open>The settings the module reads from the environment when it is loaded.\<close>

record upsert_config =
  CONTRACT_ADDRESS :: string
  chainSegment :: string
  MAX_PROOF_WALLETS :: nat
  MAX_PROOF_DEPTH :: nat
  RATE_LIMIT_WINDOW_MS :: int
  RATE_LIMIT_MAX_REQUESTS :: int
  kvConfigured :: bool

text \<open>
  What the surroundings answer during one request: the three readings of \<open>Date.now()\<close>
  (in \<open>isRateLimited\<close>, in the handler, in \<open>cleanupUsedSignatures\<close>), the ISO time used
  when the body has no \<open>generatedAt\<close>, the owner read from the chain (\<open>Inl\<close> the message
  of the error when that fails), and the outcomes of the file and key-value operations.
\<close>

datatype io_result = Done | Failed string

record upsert_env =
  clock_rateLimit :: int
  clock_now :: int
  clock_cleanup :: int
  nowIso :: string
  ownerFromChain :: "string + string"
  fs_mkdir :: io_result
  fs_readFile :: "string option"
  fs_writeFile :: io_result
  kv_set :: io_result

text \<open>The two module-level maps that live across requests.\<close>

record bucket =
  bucket_count :: int
  bucket_resetAt :: int

record upsert_state =
  usedSignatures :: "string \<rightharpoonup> int"
  rateLimitBuckets :: "string \<rightharpoonup> bucket"

record response =
  status :: nat
  ok :: bool
  body :: string

datatype store = WriteFile string string | KvSet string string

definition errorResponse :: "nat \<Rightarrow> string \<Rightarrow> response" where
  "errorResponse statusCode msg = \<lparr>status = statusCode, ok = False, body = msg\<rparr>"

definition okResponse :: "string \<Rightarrow> response" where
  "okResponse path = \<lparr>status = 200, ok = True, body = path\<rparr>"

text \<open>An exception that leaves the handler: the framework answers 500.\<close>

definition uncaughtResponse :: response where
  "uncaughtResponse = errorResponse 500 ''Internal Server Error''"

subsection \<open>Helpers of the handler\<close>

text \<open>
  \<open>stableStringify\<close> on a proofs object: the entries sorted by key, keys and hashes
  as JSON strings. Keys and hashes have passed the hex tests, so \<open>JSON.stringify\<close> only
  puts them between double quotes.
\<close>

definition jsonQuote :: "string \<Rightarrow> string" where
  "jsonQuote s = [CHR 0x22] @ s @ [CHR 0x22]"

definition stableStringify :: "(string \<times> string list) list \<Rightarrow> string" where
  "stableStringify proofMap =
     ''{'' @
     join '',''
       (map (\<lambda>(key, val). jsonQuote key @ '':'' @ (''['' @ join '','' (map jsonQuote val) @ '']''))
          (sort_key fst proofMap)) @
     ''}''"

definition buildProofsHash :: "library \<Rightarrow> (string \<times> string list) list \<Rightarrow> string" where
  "buildProofsHash lib proofMap = ethers_keccak256Utf8 lib (stableStringify proofMap)"

definition buildAllowlistPublishMessage ::
  "library \<Rightarrow> string \<Rightarrow> rat \<Rightarrow> string \<Rightarrow> rat \<Rightarrow> string \<Rightarrow> rat \<Rightarrow> string"
where
  "buildAllowlistPublishMessage lib contractAddress phaseId merkleRoot totalCount proofsHash timestamp =
     join [CHR 0x0A]
       [''MegaETH Allowlist Publish'',
        ''contract:'' @ toLowerCase contractAddress,
        ''phaseId:'' @ js_String lib phaseId,
        ''root:'' @ toLowerCase merkleRoot,
        ''total:'' @ js_String lib totalCount,
        ''proofsHash:'' @ toLowerCase proofsHash,
        ''timestamp:'' @ js_String lib timestamp]"

text \<open>\<open>cleanupUsedSignatures\<close> deletes every entry older than the maximal signature age.\<close>

definition cleanupUsedSignatures :: "int \<Rightarrow> (string \<rightharpoonup> int) \<Rightarrow> (string \<rightharpoonup> int)" where
  "cleanupUsedSignatures now used =
     (\<lambda>key. case used key of
              None \<Rightarrow> None
            | Some val \<Rightarrow> if now - val > MAX_SIGNATURE_AGE_MS then None else Some val)"

definition cleanupRateLimitBuckets :: "int \<Rightarrow> (string \<rightharpoonup> bucket) \<Rightarrow> (string \<rightharpoonup> bucket)" where
  "cleanupRateLimitBuckets now buckets =
     (\<lambda>key. case buckets key of
              None \<Rightarrow> None
            | Some b \<Rightarrow> if bucket_resetAt b \<le> now then None else Some b)"

text \<open>\<open>isRateLimited\<close> returns the verdict, the seconds for \<open>Retry-After\<close> and the
  updated buckets; \<open>Math.ceil(x / 1000)\<close> on integers is \<open>- ((- x) div 1000)\<close>.\<close>

definition isRateLimited ::
  "upsert_config \<Rightarrow> int \<Rightarrow> string \<Rightarrow> (string \<rightharpoonup> bucket) \<Rightarrow> bool \<times> int \<times> (string \<rightharpoonup> bucket)"
where
  "isRateLimited cfg now ip buckets =
     (let cleaned = cleanupRateLimitBuckets now buckets
      in case cleaned ip of
           None \<Rightarrow>
             (False, 0,
              cleaned(ip \<mapsto> \<lparr>bucket_count = 1, bucket_resetAt = now + RATE_LIMIT_WINDOW_MS cfg\<rparr>))
         | Some current \<Rightarrow>
             if bucket_resetAt current \<le> now
             then (False, 0,
                   cleaned(ip \<mapsto> \<lparr>bucket_count = 1,
                                   bucket_resetAt = now + RATE_LIMIT_WINDOW_MS cfg\<rparr>))
             else
               (let counted = current\<lparr>bucket_count := bucket_count current + 1\<rparr>
                in if bucket_count counted > RATE_LIMIT_MAX_REQUESTS cfg
                   then (True, max 1 (- ((- (bucket_resetAt current - now)) div 1000)),
                         cleaned(ip \<mapsto> counted))
                   else (False, 0, cleaned(ip \<mapsto> counted))))"

definition getAllowlistKvKey :: "library \<Rightarrow> upsert_config \<Rightarrow> rat \<Rightarrow> string" where
  "getAllowlistKvKey lib cfg phaseId =
     ''allowlist-proof:'' @ toLowerCase (CONTRACT_ADDRESS cfg) @ '':'' @ chainSegment cfg @ '':'' @
     js_String lib phaseId"

text \<open>\<open>text.trim()\<close> on a byte string: blanks, tabs and line ends go from both ends.\<close>

definition isWhitespace :: "char \<Rightarrow> bool" where
  "isWhitespace c = (c \<in> set [CHR 0x20, CHR 0x09, CHR 0x0A, CHR 0x0B, CHR 0x0C, CHR 0x0D])"

definition trim :: "string \<Rightarrow> string" where
  "trim s = rev (dropWhile isWhitespace (rev (dropWhile isWhitespace s)))"

text \<open>The loop over the proof entries: \<open>None\<close> at the first entry that is invalid,
  else the proofs keyed by the lower-cased wallet as the assignments build them.\<close>

fun normalizeProofs ::
  "nat \<Rightarrow> (string \<times> string list option) list \<Rightarrow> (string \<times> string list) list \<Rightarrow>
   (string \<times> string list) list option"
where
  "normalizeProofs maxProofDepth [] normalizedProofs = Some normalizedProofs"
| "normalizeProofs maxProofDepth ((wallet, proof) # rest) normalizedProofs =
     (case proof of
        None \<Rightarrow> None
      | Some items \<Rightarrow>
          if \<not> isAddress wallet \<or> \<not> isProofArray maxProofDepth (Some items) then None
          else normalizeProofs maxProofDepth rest
                 (AList.update (toLowerCase wallet) items normalizedProofs))"

subsection \<open>The handler\<close>

text \<open>\<open>stringOf\<close> reads a field that has passed its string test.\<close>

definition stringOf :: "string option \<Rightarrow> string" where
  "stringOf v = (case v of None \<Rightarrow> [] | Some s \<Rightarrow> s)"

definition orDefault :: "string \<Rightarrow> string \<Rightarrow> string" where
  "orDefault msg fallback = (if msg = [] then fallback else msg)"

text \<open>\<open>Number.isFinite(total) && total > 0 ? Math.floor(total) : proofEntries.length\<close>.\<close>

definition normalizeTotal :: "number \<Rightarrow> nat \<Rightarrow> rat" where
  "normalizeTotal totalCount entryCount =
     (case totalCount of
        Finite t \<Rightarrow> if t > 0 then of_int \<lfloor>t\<rfloor> else of_nat entryCount
      | NotFinite \<Rightarrow> of_nat entryCount)"

record verified_request =
  vr_payload :: payload
  vr_signature :: string
  vr_recovered :: string

text \<open>
  Lines 240 to 336: the checks of the body, the timestamp, the proofs hash and the
  signature, in the order of the source. The constants at the top are those the source
  declares before and between its checks; each is used only after the check that makes
  it meaningful. \<open>getAddress(signer)\<close> in line 334 is outside every \<open>try\<close>.
\<close>

definition validate ::
  "library \<Rightarrow> upsert_config \<Rightarrow> upsert_env \<Rightarrow> upsert_request \<Rightarrow> response + verified_request"
where
  "validate lib cfg env req =
     (let phaseId = (case body_phaseId req of Finite q \<Rightarrow> q | NotFinite \<Rightarrow> 0);
          merkleRoot = stringOf (body_root req);
          mode = (case body_mode req of Some m \<Rightarrow> m | None \<Rightarrow> ''address-only-merkle'');
          generatedAt = orDefault (stringOf (body_generatedAt req)) (nowIso env);
          signer = stringOf (body_signer req);
          proofsHash = stringOf (body_proofsHash req);
          timestamp = (case body_timestamp req of Finite q \<Rightarrow> q | NotFinite \<Rightarrow> 0);
          signature = stringOf (body_signature req);
          proofEntries = (case body_proofs req of Some entries \<Rightarrow> entries | None \<Rightarrow> []);
          normalized = normalizeProofs (MAX_PROOF_DEPTH cfg) proofEntries [];
          normalizedProofs = (case normalized of Some m \<Rightarrow> m | None \<Rightarrow> []);
          now = clock_now env;
          normalizedTotal = normalizeTotal (body_total req) (length proofEntries);
          payload = \<lparr>p_phaseId = phaseId, p_root = merkleRoot, p_total = normalizedTotal,
                     p_generatedAt = generatedAt, p_mode = mode, p_proofs = normalizedProofs\<rparr>;
          computedProofsHash = buildProofsHash lib normalizedProofs;
          msg = buildAllowlistPublishMessage lib (CONTRACT_ADDRESS cfg) (p_phaseId payload)
                  (p_root payload) (p_total payload) computedProofsHash timestamp
      in if \<not> str_includes (toLowerCase (contentType req)) ''application/json''
         then Inl (errorResponse 415 ''Content-Type must be application/json.'')
         else if \<not> isInteger (body_phaseId req) \<or> phaseId < 0
         then Inl (errorResponse 400 ''Invalid phaseId'')
         else if \<not> isBytes32 (body_root req)
         then Inl (errorResponse 400 ''Invalid merkle root'')
         else if body_proofs req = None
         then Inl (errorResponse 400 ''Invalid proofs payload'')
         else if length proofEntries > MAX_PROOF_WALLETS cfg
         then Inl (errorResponse 413
                     (''Proof payload too large. Max '' @
                      js_String lib (of_nat (MAX_PROOF_WALLETS cfg)) @ '' wallets.''))
         else if normalized = None
         then Inl (errorResponse 400 ''Invalid proofs entry'')
         else if body_signer req = None \<or> \<not> isAddress signer
         then Inl (errorResponse 401 ''Missing signer'')
         else if \<not> isBytes32 (body_proofsHash req)
         then Inl (errorResponse 401 ''Missing proofs hash'')
         else if body_timestamp req = NotFinite
         then Inl (errorResponse 401 ''Missing timestamp'')
         else if \<not> isLikelySignature (body_signature req)
         then Inl (errorResponse 401 ''Missing signature'')
         else if \<bar>of_int now - timestamp\<bar> > of_int MAX_SIGNATURE_AGE_MS
         then Inl (errorResponse 401 ''Expired signature'')
         else if normalizedTotal < of_nat (length proofEntries)
         then Inl (errorResponse 400 ''Invalid total count for proofs payload.'')
         else if toLowerCase computedProofsHash \<noteq> toLowerCase proofsHash
         then Inl (errorResponse 401 ''Proof hash mismatch'')
         else
           (case Option.bind (ethers_verifyMessage lib msg signature) (ethers_getAddress lib) of
              None \<Rightarrow> Inl (errorResponse 401 ''Invalid signature'')
            | Some recovered \<Rightarrow>
                (case ethers_getAddress lib signer of
                   None \<Rightarrow> Inl uncaughtResponse
                 | Some signerChecksum \<Rightarrow>
                     if recovered \<noteq> signerChecksum
                     then Inl (errorResponse 403 ''Signature signer mismatch'')
                     else Inr \<lparr>vr_payload = payload, vr_signature = signature,
                               vr_recovered = recovered\<rparr>)))"

text \<open>
  Lines 338 to 407: the replay check, the owner check and the two stores. The result
  lists the stores that were carried out: the file write (none when the file already
  holds the same text) and the key-value \<open>SET\<close>.
\<close>

definition publish ::
  "library \<Rightarrow> upsert_config \<Rightarrow> upsert_env \<Rightarrow> verified_request \<Rightarrow> upsert_state \<Rightarrow>
   response \<times> store list \<times> upsert_state"
where
  "publish lib cfg env v st =
     (let used = cleanupUsedSignatures (clock_cleanup env) (usedSignatures st);
          st1 = st\<lparr>usedSignatures := used\<rparr>;
          signatureKey = toLowerCase (vr_signature v);
          phaseId = p_phaseId (vr_payload v)
      in if used signatureKey \<noteq> None
         then (errorResponse 409 ''Replay detected'', [], st1)
         else
           (case ownerFromChain env of
              Inl failure \<Rightarrow>
                (errorResponse 500 (orDefault failure ''Failed to resolve contract owner''), [], st1)
            | Inr ownerAddress \<Rightarrow>
                if vr_recovered v \<noteq> ownerAddress
                then (errorResponse 403 ''Only contract owner can publish proof'', [], st1)
                else
                  (let serialized = JSON_stringify lib (vr_payload v);
                       filePath = ''public/allowlists/phase-'' @ js_String lib phaseId @ ''.json'';
                       (savedToFile, fileError, fileStores) =
                         (case fs_mkdir env of
                            Failed m \<Rightarrow> (False, orDefault m ''Failed to write proof file on server'', [])
                          | Done \<Rightarrow>
                              if (case fs_readFile env of
                                    Some existing \<Rightarrow> trim existing = trim serialized
                                  | None \<Rightarrow> False)
                              then (True, [], [])
                              else
                                (case fs_writeFile env of
                                   Failed m \<Rightarrow>
                                     (False, orDefault m ''Failed to write proof file on server'', [])
                                 | Done \<Rightarrow> (True, [], [WriteFile filePath serialized])));
                       (savedToKv, kvError, kvStores) =
                         (if kvConfigured cfg
                          then (case kv_set env of
                                  Failed m \<Rightarrow>
                                    (False, orDefault m ''Failed to write proof payload to KV'', [])
                                | Done \<Rightarrow>
                                    (True, [], [KvSet (getAllowlistKvKey lib cfg phaseId) serialized]))
                          else (False, [], []))
                   in if \<not> savedToFile \<and> \<not> savedToKv
                      then
                        (if \<not> kvConfigured cfg
                         then errorResponse 500
                                (orDefault fileError ''Failed to write proof file on server'' @
                                 ''. Configure KV_REST_API_* for auto-publish on serverless.'')
                         else errorResponse 500
                                (orDefault fileError ''Failed to write proof file on server'' @ ''; '' @
                                 orDefault kvError ''Failed to write proof payload to KV''),
                         fileStores @ kvStores, st1)
                      else
                        (okResponse
                           (if savedToKv
                            then ''/api/allowlists/proof?phaseId='' @ js_String lib phaseId
                            else ''/allowlists/phase-'' @ js_String lib phaseId @ ''.json''),
                         fileStores @ kvStores,
                         st1\<lparr>usedSignatures := used(signatureKey \<mapsto> clock_now env)\<rparr>))))"

text \<open>Lines 222 to 239, then the two blocks above. The rate limiter counts the request
  before the body is looked at.\<close>

definition handler ::
  "library \<Rightarrow> upsert_config \<Rightarrow> upsert_env \<Rightarrow> upsert_request \<Rightarrow> upsert_state \<Rightarrow>
   response \<times> store list \<times> upsert_state"
where
  "handler lib cfg env req st =
     (if req_method req \<noteq> ''POST''
      then (errorResponse 405 ''Method not allowed'', [], st)
      else if \<not> isAddress (CONTRACT_ADDRESS cfg)
      then (errorResponse 500 ''Server contract address is not configured.'', [], st)
      else if \<not> originAllowed req
      then (errorResponse 403 ''Origin not allowed.'', [], st)
      else
        (let (limited, retryAfterSec, buckets) =
               isRateLimited cfg (clock_rateLimit env) (requestIp req) (rateLimitBuckets st);
             st1 = st\<lparr>rateLimitBuckets := buckets\<rparr>
         in if limited
            then (errorResponse 429 ''Too many requests. Try again later.'', [], st1)
            else
              (case validate lib cfg env req of
                 Inl rejection \<Rightarrow> (rejection, [], st1)
               | Inr v \<Rightarrow> publish lib cfg env v st1)))"

text \<open>The three parts of what a request leaves behind.\<close>

definition responseOf :: "response \<times> store list \<times> upsert_state \<Rightarrow> response" where
  "responseOf outcome = fst outcome"

definition storesOf :: "response \<times> store list \<times> upsert_state \<Rightarrow> store list" where
  "storesOf outcome = fst (snd outcome)"

definition stateOf :: "response \<times> store list \<times> upsert_state \<Rightarrow> upsert_state" where
  "stateOf outcome = snd (snd outcome)"

text \<open>A request gets to the replay check of line 340 when nothing before it answers.\<close>

definition reachesReplayCheck ::
  "library \<Rightarrow> upsert_config \<Rightarrow> upsert_env \<Rightarrow> upsert_request \<Rightarrow> upsert_state \<Rightarrow> bool"
where
  "reachesReplayCheck lib cfg env req st =
     (req_method req = ''POST'' \<and> isAddress (CONTRACT_ADDRESS cfg) \<and> originAllowed req \<and>
      \<not> fst (isRateLimited cfg (clock_rateLimit env) (requestIp req) (rateLimitBuckets st)) \<and>
      (case validate lib cfg env req of Inl rejection \<Rightarrow> False | Inr v \<Rightarrow> True))"

text \<open>Requests served one after the other, each with its own surroundings.\<close>

fun serve ::
  "library \<Rightarrow> upsert_config \<Rightarrow> (upsert_env \<times> upsert_request) list \<Rightarrow> upsert_state \<Rightarrow> upsert_state"
where
  "serve lib cfg [] st = st"
| "serve lib cfg ((env, req) # rest) st = serve lib cfg rest (stateOf (handler lib cfg env req st))"

subsection \<open>A sample publication\<close>

text \<open>
  A library, a configuration, surroundings and a request on which the handler can be
  run: the signature check answers the owner's address, the hash of every text is the
  same value, every number prints as 7. The clock readings and the timestamp of the
  request are left open.
\<close>

definition sample_library :: library where
  "sample_library =
     \<lparr>ethers_verifyMessage = (\<lambda>msg signature. Some (''0x'' @ replicate 40 (CHR ''b''))),
      ethers_getAddress = Some,
      ethers_keccak256Utf8 = (\<lambda>t. ''0x'' @ replicate 64 (CHR ''c'')),
      js_String = (\<lambda>q. ''7''),
      JSON_stringify = (\<lambda>p. ''{}'')\<rparr>"

definition sample_config :: upsert_config where
  "sample_config =
     \<lparr>CONTRACT_ADDRESS = ''0x'' @ replicate 40 (CHR ''a''), chainSegment = ''6342'',
      MAX_PROOF_WALLETS = 25000, MAX_PROOF_DEPTH = 40, RATE_LIMIT_WINDOW_MS = 60000,
      RATE_LIMIT_MAX_REQUESTS = 30, kvConfigured = False\<rparr>"

definition sample_env :: "int \<Rightarrow> upsert_env" where
  "sample_env now =
     \<lparr>clock_rateLimit = now, clock_now = now, clock_cleanup = now,
      nowIso = ''2026-01-01T00:00:00.000Z'',
      ownerFromChain = Inr (''0x'' @ replicate 40 (CHR ''b'')),
      fs_mkdir = Done, fs_readFile = None, fs_writeFile = Done, kv_set = Done\<rparr>"

definition sample_request :: "rat \<Rightarrow> upsert_request" where
  "sample_request timestamp =
     \<lparr>req_method = ''POST'', originAllowed = True, requestIp = ''10.0.0.1'',
      contentType = ''application/json'', body_phaseId = Finite 7,
      body_root = Some (''0x'' @ replicate 64 (CHR ''d'')),
      body_proofs = Some [(''0x'' @ replicate 40 (CHR ''E''), Some [''0x'' @ replicate 64 (CHR ''f'')])],
      body_total = Finite 1, body_mode = None, body_generatedAt = None,
      body_signer = Some (''0x'' @ replicate 40 (CHR ''b'')),
      body_proofsHash = Some (''0x'' @ replicate 64 (CHR ''C'')),
      body_timestamp = Finite timestamp,
      body_signature = Some (''0x'' @ replicate 130 (CHR ''1''))\<rparr>"

definition empty_state :: upsert_state where
  "empty_state = \<lparr>usedSignatures = Map.empty, rateLimitBuckets = Map.empty\<rparr>"

subsection \<open>Facts about the handler\<close>

lemma isBytes32_Some: "isBytes32 v \<Longrightarrow> \<exists>s. v = Some s"
  by (cases v) (simp_all add: isBytes32_def)

lemma isLikelySignature_Some: "isLikelySignature v \<Longrightarrow> \<exists>s. v = Some s"
  by (cases v) (simp_all add: isLikelySignature_def)

lemma validate_Inr:
  assumes "validate lib cfg env req = Inr v"
  shows "\<exists>timestamp entries normalizedProofs proofsHash signature phaseId merkleRoot.
           body_timestamp req = Finite timestamp \<and>
           \<bar>of_int (clock_now env) - timestamp\<bar> \<le> of_int MAX_SIGNATURE_AGE_MS \<and>
           body_proofs req = Some entries \<and>
           normalizeProofs (MAX_PROOF_DEPTH cfg) entries [] = Some normalizedProofs \<and>
           body_proofsHash req = Some proofsHash \<and>
           toLowerCase proofsHash = toLowerCase (buildProofsHash lib normalizedProofs) \<and>
           body_signature req = Some signature \<and>
           body_phaseId req = Finite phaseId \<and>
           body_root req = Some merkleRoot \<and>
           Option.bind
             (ethers_verifyMessage lib
                (buildAllowlistPublishMessage lib (CONTRACT_ADDRESS cfg) phaseId merkleRoot
                   (normalizeTotal (body_total req) (length entries))
                   (buildProofsHash lib normalizedProofs) timestamp)
                signature)
             (ethers_getAddress lib) = Some (vr_recovered v) \<and>
           vr_signature v = signature"
proof -
  from assms obtain proofsHash signature merkleRoot where fields:
    "body_proofsHash req = Some proofsHash" "body_signature req = Some signature"
    "body_root req = Some merkleRoot"
    by (auto simp: validate_def Let_def split: if_splits dest!: isBytes32_Some isLikelySignature_Some)
  from assms obtain timestamp phaseId entries normalizedProofs where more:
    "body_timestamp req = Finite timestamp" "body_phaseId req = Finite phaseId"
    "body_proofs req = Some entries"
    "normalizeProofs (MAX_PROOF_DEPTH cfg) entries [] = Some normalizedProofs"
    by (cases "body_timestamp req"; cases "body_phaseId req"; cases "body_proofs req")
       (auto simp: validate_def Let_def isInteger_def split: if_splits)
  show ?thesis
    using assms fields more
    by (auto simp: validate_def Let_def stringOf_def split: if_splits option.splits)
qed


lemma publish_outcome:
  "(storesOf (publish lib cfg env v st) = [] \<and> \<not> ok (responseOf (publish lib cfg env v st)) \<and>
    400 \<le> status (responseOf (publish lib cfg env v st))) \<or>
   (ownerFromChain env = Inr (vr_recovered v) \<and>
    cleanupUsedSignatures (clock_cleanup env) (usedSignatures st) (toLowerCase (vr_signature v)) = None)"
  by (simp add: publish_def Let_def storesOf_def responseOf_def errorResponse_def okResponse_def
      split: sum.splits io_result.splits option.splits if_splits)

lemma handler_outcome:
  "(storesOf (handler lib cfg env req st) = [] \<and> \<not> ok (responseOf (handler lib cfg env req st)) \<and>
    400 \<le> status (responseOf (handler lib cfg env req st))) \<or>
   (\<exists>v. validate lib cfg env req = Inr v \<and> ownerFromChain env = Inr (vr_recovered v))"
proof (cases "validate lib cfg env req")
  case (Inl rejection)
  then have "\<not> ok rejection \<and> 400 \<le> status rejection"
    by (auto simp: validate_def Let_def errorResponse_def uncaughtResponse_def
        split: if_splits option.splits)
  with Inl show ?thesis
    by (simp add: handler_def Let_def storesOf_def responseOf_def errorResponse_def
        split: prod.splits)
next
  case (Inr v)
  with publish_outcome [of lib cfg env v] show ?thesis
    by (auto simp: handler_def Let_def storesOf_def responseOf_def errorResponse_def
        split: prod.splits)
qed

lemma cleanupUsedSignatures_keeps:
  "used k = Some t0 \<Longrightarrow> now - t0 \<le> MAX_SIGNATURE_AGE_MS \<Longrightarrow>
   cleanupUsedSignatures now used k = Some t0"
  by (simp add: cleanupUsedSignatures_def)

lemma publish_keeps_entry:
  assumes "usedSignatures st k = Some t0" and "clock_cleanup env - t0 \<le> MAX_SIGNATURE_AGE_MS"
  shows "usedSignatures (stateOf (publish lib cfg env v st)) k = Some t0"
  using cleanupUsedSignatures_keeps [of "usedSignatures st" k t0 "clock_cleanup env", OF assms]
  by (auto simp: publish_def Let_def stateOf_def
      split: sum.splits io_result.splits option.splits if_splits prod.splits)

lemma handler_keeps_entry:
  assumes "usedSignatures st k = Some t0" and "clock_cleanup env - t0 \<le> MAX_SIGNATURE_AGE_MS"
  shows "usedSignatures (stateOf (handler lib cfg env req st)) k = Some t0"
proof (cases "validate lib cfg env req")
  case (Inl rejection)
  with assms(1) show ?thesis
    by (simp add: handler_def Let_def stateOf_def split: prod.splits)
next
  case (Inr v)
  have "usedSignatures (stateOf (publish lib cfg env v (st\<lparr>rateLimitBuckets := b\<rparr>))) k = Some t0" for b
    using assms by (intro publish_keeps_entry) simp_all
  with Inr assms(1) show ?thesis
    by (simp add: handler_def Let_def split: prod.splits) (simp add: stateOf_def)
qed

lemma serve_keeps_entry:
  assumes "usedSignatures st k = Some t0"
    and "\<forall>(env, req) \<in> set calls. clock_cleanup env - t0 \<le> MAX_SIGNATURE_AGE_MS"
  shows "usedSignatures (serve lib cfg calls st) k = Some t0"
  using assms
proof (induction calls arbitrary: st)
  case Nil
  then show ?case by simp
next
  case (Cons call calls)
  obtain env req where call: "call = (env, req)" by (cases call)
  with Cons.prems have "usedSignatures (stateOf (handler lib cfg env req st)) k = Some t0"
    by (intro handler_keeps_entry) simp_all
  with Cons.prems(2) call show ?case
    by (simp add: Cons.IH)
qed

lemma publish_accept_records:
  assumes "status (responseOf (publish lib cfg env v st)) = 200"
  shows "usedSignatures (stateOf (publish lib cfg env v st)) (toLowerCase (vr_signature v))
           = Some (clock_now env)"
  using assms
  by (auto simp: publish_def Let_def stateOf_def responseOf_def errorResponse_def
      split: sum.splits io_result.splits option.splits if_splits prod.splits)

lemma handler_accept_records:
  assumes "status (responseOf (handler lib cfg env req st)) = 200"
  shows "\<exists>signature. body_signature req = Some signature \<and>
           usedSignatures (stateOf (handler lib cfg env req st)) (toLowerCase signature)
             = Some (clock_now env)"
proof -
  from handler_outcome [of lib cfg env req st] assms
  obtain v where v: "validate lib cfg env req = Inr v"
    by auto
  from validate_Inr [OF v] obtain signature where sig: "body_signature req = Some signature"
    "vr_signature v = signature"
    by blast
  from assms v have gate: "handler lib cfg env req st =
      publish lib cfg env v (st\<lparr>rateLimitBuckets :=
        snd (snd (isRateLimited cfg (clock_rateLimit env) (requestIp req) (rateLimitBuckets st)))\<rparr>)"
    by (auto simp: handler_def Let_def responseOf_def errorResponse_def split: prod.splits if_splits)
  from assms show ?thesis
    unfolding gate using sig by (auto dest: publish_accept_records)
qed

lemma publish_detects_replay:
  assumes "usedSignatures st (toLowerCase (vr_signature v)) = Some t0"
    and "clock_cleanup env - t0 \<le> MAX_SIGNATURE_AGE_MS"
  shows "publish lib cfg env v st =
           (errorResponse 409 ''Replay detected'', [],
            st\<lparr>usedSignatures := cleanupUsedSignatures (clock_cleanup env) (usedSignatures st)\<rparr>)"
  using cleanupUsedSignatures_keeps
    [of "usedSignatures st" "toLowerCase (vr_signature v)" t0 "clock_cleanup env", OF assms]
  by (simp add: publish_def Let_def)

lemma handler_replay:
  assumes "usedSignatures st (toLowerCase s) = Some t0"
    and "clock_cleanup env - t0 \<le> MAX_SIGNATURE_AGE_MS"
    and "body_signature req = Some s'" and "toLowerCase s' = toLowerCase s"
  shows "storesOf (handler lib cfg env req st) = [] \<and>
         status (responseOf (handler lib cfg env req st)) \<noteq> 200 \<and>
         (reachesReplayCheck lib cfg env req st \<longrightarrow>
            responseOf (handler lib cfg env req st) = errorResponse 409 ''Replay detected'')"
proof (cases "validate lib cfg env req")
  case (Inl rejection)
  then have "status rejection \<noteq> 200"
    by (auto simp: validate_def Let_def errorResponse_def uncaughtResponse_def
        split: if_splits option.splits)
  with Inl show ?thesis
    by (simp add: handler_def Let_def storesOf_def responseOf_def errorResponse_def
        reachesReplayCheck_def split: prod.splits)
next
  case (Inr v)
  from validate_Inr [OF Inr] assms(3) have "vr_signature v = s'" by auto
  with assms have "publish lib cfg env v (st\<lparr>rateLimitBuckets := b\<rparr>) =
           (errorResponse 409 ''Replay detected'', [],
            st\<lparr>rateLimitBuckets := b, usedSignatures :=
               cleanupUsedSignatures (clock_cleanup env) (usedSignatures st)\<rparr>)" for b
    by (subst publish_detects_replay [where ?t0.0 = t0]) simp_all
  with Inr show ?thesis
    by (simp add: handler_def Let_def storesOf_def responseOf_def errorResponse_def
        reachesReplayCheck_def split: prod.splits)
qed

lemma list_all_replicate: "list_all P (replicate n c) = (n = 0 \<or> P c)"
  by (induction n) auto

lemma isHex_replicate:
  "isHex lo hi (CHR ''0'' # CHR ''x'' # replicate n c) =
     (lo \<le> n \<and> n \<le> hi \<and> (n = 0 \<or> isHexDigit c))"
  by (auto simp: isHex_def list_all_replicate)

lemma toLowerCase_hex_replicate:
  "toLowerCase (CHR ''0'' # CHR ''x'' # replicate n c) = CHR ''0'' # CHR ''x'' # replicate n (lowerChar c)"
  by (simp add: toLowerCase_def lowerChar_def)

lemma sample_chars:
  "isHexDigit (CHR ''a'')" "isHexDigit (CHR ''b'')" "isHexDigit (CHR ''C'')" "isHexDigit (CHR ''d'')"
  "isHexDigit (CHR ''E'')" "isHexDigit (CHR ''f'')" "isHexDigit (CHR ''1'')"
  "lowerChar (CHR ''C'') = CHR ''c''" "lowerChar (CHR ''c'') = CHR ''c''"
  "lowerChar (CHR ''1'') = CHR ''1''" "lowerChar (CHR ''E'') = CHR ''e''"
  by code_simp+

lemma sample_contentType:
  "str_includes (toLowerCase ''application/json'') ''application/json''"
  by code_simp

lemma sample_validate:
  assumes "\<bar>of_int n - t\<bar> \<le> 300000"
  shows "validate sample_library sample_config (sample_env n) (sample_request t) =
     Inr \<lparr>vr_payload = \<lparr>p_phaseId = 7, p_root = ''0x'' @ replicate 64 (CHR ''d''), p_total = 1,
                        p_generatedAt = ''2026-01-01T00:00:00.000Z'', p_mode = ''address-only-merkle'',
                        p_proofs = [(''0x'' @ replicate 40 (CHR ''e''), [''0x'' @ replicate 64 (CHR ''f'')])]\<rparr>,
          vr_signature = ''0x'' @ replicate 130 (CHR ''1''),
          vr_recovered = ''0x'' @ replicate 40 (CHR ''b'')\<rparr>"
  using assms
  unfolding validate_def sample_library_def sample_config_def sample_env_def sample_request_def
  by (simp add: Let_def isBytes32_def isAddress_def isLikelySignature_def isProofArray_def
      isHex_replicate toLowerCase_hex_replicate sample_chars sample_contentType isInteger_def
      stringOf_def orDefault_def normalizeTotal_def buildProofsHash_def MAX_SIGNATURE_AGE_MS_def)

lemma sample_fields:
  "req_method (sample_request t) = ''POST''"
  "originAllowed (sample_request t)"
  "requestIp (sample_request t) = ''10.0.0.1''"
  "CONTRACT_ADDRESS sample_config = CHR ''0'' # CHR ''x'' # replicate 40 (CHR ''a'')"
  "kvConfigured sample_config = False"
  "RATE_LIMIT_WINDOW_MS sample_config = 60000"
  "clock_rateLimit (sample_env n) = n"
  "clock_now (sample_env n) = n"
  "clock_cleanup (sample_env n) = n"
  "ownerFromChain (sample_env n) = Inr (CHR ''0'' # CHR ''x'' # replicate 40 (CHR ''b''))"
  "fs_mkdir (sample_env n) = Done"
  "fs_readFile (sample_env n) = None"
  "fs_writeFile (sample_env n) = Done"
  "rateLimitBuckets empty_state = Map.empty"
  "usedSignatures empty_state = Map.empty"
  "JSON_stringify sample_library p = ''{}''"
  "js_String sample_library q = ''7''"
  by (simp_all add: sample_request_def sample_config_def sample_env_def empty_state_def
      sample_library_def)

lemma sample_accepted:
  "responseOf (handler sample_library sample_config (sample_env 1000000) (sample_request 999000)
      empty_state) = okResponse ''/allowlists/phase-7.json'' \<and>
   storesOf (handler sample_library sample_config (sample_env 1000000) (sample_request 999000)
      empty_state) = [WriteFile ''public/allowlists/phase-7.json'' ''{}''] \<and>
   rateLimitBuckets (stateOf (handler sample_library sample_config (sample_env 1000000)
      (sample_request 999000) empty_state))
     = [''10.0.0.1'' \<mapsto> \<lparr>bucket_count = 1, bucket_resetAt = 1060000\<rparr>]"
  by (simp add: stateOf_def handler_def publish_def Let_def sample_validate sample_fields isAddress_def
      isHex_replicate sample_chars isRateLimited_def cleanupRateLimitBuckets_def
      cleanupUsedSignatures_def responseOf_def storesOf_def orDefault_def)

lemma sample_reaches_replay_check:
  "reachesReplayCheck sample_library sample_config (sample_env 1200000) (sample_request 1100000)
     (serve sample_library sample_config []
        (stateOf (handler sample_library sample_config (sample_env 1000000)
           (sample_request 999000) empty_state)))"
  using sample_accepted
  by (simp add: reachesReplayCheck_def sample_validate sample_fields isAddress_def isHex_replicate
      sample_chars isRateLimited_def cleanupRateLimitBuckets_def)

subsection \<open>Claims about the publication endpoint\<close>

text \<open>
  C3 (allowlist publish authentication). For every request, either nothing is stored
  and the answer is an error (not OK, status at least 400), or all of the following
  hold: the timestamp of the request is within 300000 ms of the server time; the
  \<open>proofsHash\<close> of the request is the hash recomputed from the normalised proofs map
  (compared as hashes, that is without regard to the case of the hex digits); and the
  signature over the canonical message that binds the contract, the phase id, the root,
  the total, the recomputed proofs hash and the timestamp recovers to the address that
  the contract's \<open>owner()\<close> returned. So a store (a file write or a key-value write)
  happens only if all three hold, and the answer is an error whenever one fails.
\<close>

theorem upsert_requires_authentication:
  "(storesOf (handler lib cfg env req st) = [] \<and>
    \<not> ok (responseOf (handler lib cfg env req st)) \<and>
    400 \<le> status (responseOf (handler lib cfg env req st))) \<or>
   (\<exists>timestamp entries normalizedProofs proofsHash signature phaseId merkleRoot ownerAddress.
      body_timestamp req = Finite timestamp \<and>
      \<bar>of_int (clock_now env) - timestamp\<bar> \<le> 300000 \<and>
      body_proofs req = Some entries \<and>
      normalizeProofs (MAX_PROOF_DEPTH cfg) entries [] = Some normalizedProofs \<and>
      body_proofsHash req = Some proofsHash \<and>
      toLowerCase proofsHash = toLowerCase (buildProofsHash lib normalizedProofs) \<and>
      body_signature req = Some signature \<and>
      body_phaseId req = Finite phaseId \<and>
      body_root req = Some merkleRoot \<and>
      Option.bind
        (ethers_verifyMessage lib
           (buildAllowlistPublishMessage lib (CONTRACT_ADDRESS cfg) phaseId merkleRoot
              (normalizeTotal (body_total req) (length entries))
              (buildProofsHash lib normalizedProofs) timestamp)
           signature)
        (ethers_getAddress lib) = Some ownerAddress \<and>
      ownerFromChain env = Inr ownerAddress)"
proof (cases "\<exists>v. validate lib cfg env req = Inr v \<and> ownerFromChain env = Inr (vr_recovered v)")
  case True
  then obtain v where v: "validate lib cfg env req = Inr v"
    and owner: "ownerFromChain env = Inr (vr_recovered v)"
    by blast
  from validate_Inr [OF v] owner show ?thesis
    by (simp add: MAX_SIGNATURE_AGE_MS_def) blast
next
  case False
  with handler_outcome [of lib cfg env req st] show ?thesis
    by blast
qed

theorem upsert_requires_authentication_witness:
  "storesOf (handler sample_library sample_config (sample_env 1000000) (sample_request 999000)
      empty_state) = [WriteFile ''public/allowlists/phase-7.json'' ''{}''] \<and>
   (\<exists>timestamp entries normalizedProofs proofsHash signature phaseId merkleRoot ownerAddress.
      body_timestamp (sample_request 999000) = Finite timestamp \<and>
      \<bar>of_int (clock_now (sample_env 1000000)) - timestamp\<bar> \<le> 300000 \<and>
      body_proofs (sample_request 999000) = Some entries \<and>
      normalizeProofs (MAX_PROOF_DEPTH sample_config) entries [] = Some normalizedProofs \<and>
      body_proofsHash (sample_request 999000) = Some proofsHash \<and>
      toLowerCase proofsHash = toLowerCase (buildProofsHash sample_library normalizedProofs) \<and>
      body_signature (sample_request 999000) = Some signature \<and>
      body_phaseId (sample_request 999000) = Finite phaseId \<and>
      body_root (sample_request 999000) = Some merkleRoot \<and>
      Option.bind
        (ethers_verifyMessage sample_library
           (buildAllowlistPublishMessage sample_library (CONTRACT_ADDRESS sample_config) phaseId
              merkleRoot (normalizeTotal (body_total (sample_request 999000)) (length entries))
              (buildProofsHash sample_library normalizedProofs) timestamp)
           signature)
        (ethers_getAddress sample_library) = Some ownerAddress \<and>
      ownerFromChain (sample_env 1000000) = Inr ownerAddress)"
  using sample_accepted
    upsert_requires_authentication [of sample_library sample_config "sample_env 1000000"
      "sample_request 999000" empty_state]
  by simp

text \<open>
  C10 (publish replay rejection). After the handler has accepted a request (status
  200), let any requests be served, and then a request with the same signature, where
  the clock that \<open>cleanupUsedSignatures\<close> reads in each of these later requests is at
  most 300000 ms after the server time of the accepted request. Then the last request
  stores nothing and is not answered with 200; and if it is not answered earlier (by
  the method, origin, rate-limit or body checks), the answer is 409 "Replay detected".
\<close>

theorem publish_replay_rejected:
  assumes accepted: "status (responseOf (handler lib cfg env1 req1 st0)) = 200"
    and between: "\<forall>(env, req) \<in> set calls. clock_cleanup env - clock_now env1 \<le> MAX_SIGNATURE_AGE_MS"
    and window: "clock_cleanup env2 - clock_now env1 \<le> MAX_SIGNATURE_AGE_MS"
    and same: "body_signature req2 = body_signature req1"
    and later: "st2 = serve lib cfg calls (stateOf (handler lib cfg env1 req1 st0))"
  shows "storesOf (handler lib cfg env2 req2 st2) = [] \<and>
         status (responseOf (handler lib cfg env2 req2 st2)) \<noteq> 200 \<and>
         (reachesReplayCheck lib cfg env2 req2 st2 \<longrightarrow>
            responseOf (handler lib cfg env2 req2 st2) = errorResponse 409 ''Replay detected'')"
proof -
  from handler_accept_records [OF accepted] obtain s where s: "body_signature req1 = Some s"
    and recorded: "usedSignatures (stateOf (handler lib cfg env1 req1 st0)) (toLowerCase s)
      = Some (clock_now env1)"
    by blast
  from recorded between have "usedSignatures st2 (toLowerCase s) = Some (clock_now env1)"
    unfolding later by (rule serve_keeps_entry)
  then show ?thesis
    using window
  proof (rule handler_replay)
    show "body_signature req2 = Some s" using same s by simp
  qed simp
qed

theorem publish_replay_rejected_witness:
  "status (responseOf (handler sample_library sample_config (sample_env 1000000)
      (sample_request 999000) empty_state)) = 200 \<and>
   clock_cleanup (sample_env 1200000) - clock_now (sample_env 1000000) \<le> MAX_SIGNATURE_AGE_MS \<and>
   body_signature (sample_request 1100000) = body_signature (sample_request 999000) \<and>
   storesOf (handler sample_library sample_config (sample_env 1200000) (sample_request 1100000)
      (serve sample_library sample_config []
         (stateOf (handler sample_library sample_config (sample_env 1000000)
            (sample_request 999000) empty_state)))) = [] \<and>
   responseOf (handler sample_library sample_config (sample_env 1200000)
      (sample_request 1100000)
      (serve sample_library sample_config []
         (stateOf (handler sample_library sample_config (sample_env 1000000)
            (sample_request 999000) empty_state)))) = errorResponse 409 ''Replay detected''"
proof -
  have accepted: "status (responseOf (handler sample_library sample_config (sample_env 1000000)
      (sample_request 999000) empty_state)) = 200"
    using sample_accepted by (simp add: okResponse_def)
  have between: "\<forall>(env, req) \<in> set []. clock_cleanup env - clock_now (sample_env 1000000)
      \<le> MAX_SIGNATURE_AGE_MS"
    by simp
  have window: "clock_cleanup (sample_env 1200000) - clock_now (sample_env 1000000)
      \<le> MAX_SIGNATURE_AGE_MS"
    by (simp add: sample_env_def MAX_SIGNATURE_AGE_MS_def)
  have same: "body_signature (sample_request 1100000) = body_signature (sample_request 999000)"
    by (simp add: sample_request_def)
  from publish_replay_rejected [OF accepted between window same refl] sample_reaches_replay_check
  show ?thesis
    using accepted window same by blast
qed

end
